theory Spec2Isabelle
  imports Complex_Main "HOL-Library.Sublist"
begin

text \<open>
  A shallow embedding of the health question-answering service: the six-stage pipeline
  over a shared state (\<open>agent.py\<close>), the metrics reader of the store module
  (\<open>firestore_memory.py\<close>) and the two chat endpoints (\<open>main.py\<close>). The stores, the
  vector index, the embedding and chat models, and the interpreter's own functions are
  parameters; every call to them is recorded, and every exception is a value.
\<close>

section \<open>Python values\<close>

text \<open>
  A Python \<open>str\<close> is a sequence of Unicode code points, and \<open>len\<close> counts code points.
  Isabelle's \<open>char\<close> stops at 255, while the source uses the sigma of the anomaly text
  and an em dash, so a string is modelled as the list of its code points. \<open>U\<close> embeds an
  ASCII literal.
\<close>

type_synonym ustr = "nat list"

definition U :: "string \<Rightarrow> ustr" where
  "U s = map of_char s"

text \<open>\<open>sep.join(xs)\<close>.\<close>

fun join :: "ustr \<Rightarrow> ustr list \<Rightarrow> ustr" where
  "join sep [] = []"
| "join sep [x] = x"
| "join sep (x # y # ys) = x @ sep @ join sep (y # ys)"

text \<open>
  \<open>a or b\<close> on values that are \<open>None\<close> or a string: \<open>None\<close> and the empty string are
  falsy. \<open>or_str\<close> is the end of such a chain, where the last operand is a string literal.
\<close>

definition por :: "ustr option \<Rightarrow> ustr option \<Rightarrow> ustr option" where
  "por a b = (if a = None \<or> a = Some [] then b else a)"

definition or_str :: "ustr option \<Rightarrow> ustr \<Rightarrow> ustr" where
  "or_str a d = (case a of None \<Rightarrow> d | Some s \<Rightarrow> if s = [] then d else s)"

text \<open>
  \<open>str.strip()\<close> removes the characters for which \<open>str.isspace\<close> holds from both ends.
\<close>

definition is_space :: "nat \<Rightarrow> bool" where
  "is_space c = (c \<in> {9, 10, 11, 12, 13, 28, 29, 30, 31, 32, 133, 160, 5760, 8232, 8233,
                     8239, 8287, 12288} \<or> (8192 \<le> c \<and> c \<le> 8202))"

definition strip :: "ustr \<Rightarrow> ustr" where
  "strip s = rev (dropWhile is_space (rev (dropWhile is_space s)))"

text \<open>
  \<open>k in q\<close> for strings: \<open>k\<close> occurs in \<open>q\<close> as a contiguous run. \<open>a.startswith(p)\<close> is
  \<open>prefix p a\<close>.
\<close>

fun contains :: "ustr \<Rightarrow> ustr \<Rightarrow> bool" where
  "contains k [] = (k = [])"
| "contains k (c # cs) = (prefix k (c # cs) \<or> contains k cs)"

text \<open>
  \<open>str.lower()\<close> and \<open>str.upper()\<close>. On an ASCII character they shift the letters; what
  they do to any other character comes from the Unicode tables of the interpreter, which
  are a parameter here: \<open>tbl s i\<close> is what the character at index \<open>i\<close> of \<open>s\<close> becomes (the
  whole string is passed because the lower case of a capital sigma depends on its
  neighbours, and the result may be several characters).
\<close>

definition ascii_lower :: "nat \<Rightarrow> nat" where
  "ascii_lower c = (if 65 \<le> c \<and> c \<le> 90 then c + 32 else c)"

definition ascii_upper :: "nat \<Rightarrow> nat" where
  "ascii_upper c = (if 97 \<le> c \<and> c \<le> 122 then c - 32 else c)"

definition lower :: "(ustr \<Rightarrow> nat \<Rightarrow> ustr) \<Rightarrow> ustr \<Rightarrow> ustr" where
  "lower tbl s =
     concat (map (\<lambda>i. if s ! i < 128 then [ascii_lower (s ! i)] else tbl s i) [0..<length s])"

definition upper :: "(ustr \<Rightarrow> nat \<Rightarrow> ustr) \<Rightarrow> ustr \<Rightarrow> ustr" where
  "upper tbl s =
     concat (map (\<lambda>i. if s ! i < 128 then [ascii_upper (s ! i)] else tbl s i) [0..<length s])"

text \<open>\<open>str(n)\<close> for a count: its decimal digits.\<close>

fun str_nat :: "nat \<Rightarrow> ustr" where
  "str_nat n = (if n < 10 then [48 + n] else str_nat (n div 10) @ [48 + n mod 10])"

text \<open>
  A Python \<open>float\<close> is an IEEE 754 double: a finite one is the real it denotes, and the
  two infinities and the not-a-number are kept apart, because \<open>float()\<close> accepts them.
  The sign of a zero is not kept (it shows only in how a zero is printed).
\<close>

datatype pyfloat = Fin real | PosInf | NegInf | NaN

text \<open>
  Rounding a real to the nearest double. A double is an integer of 53 bits at most
  times a power of two, from \<open>2\<close> to the \<open>-1074\<close> upwards; \<open>e\<close> is the exponent of the
  last bit for the binade of \<open>x\<close> (the subnormal numbers share the lowest one). A tie
  goes to the even neighbour, and a result of magnitude \<open>2\<close> to the \<open>1024\<close> is out of
  range: an infinity.
\<close>

definition pow2 :: "int \<Rightarrow> real" where
  "pow2 e = (if 0 \<le> e then 2 ^ nat e else 1 / 2 ^ nat (- e))"

definition round_half_even :: "real \<Rightarrow> int" where
  "round_half_even y =
     (if y - of_int \<lfloor>y\<rfloor> < 1 / 2 then \<lfloor>y\<rfloor>
      else if 1 / 2 < y - of_int \<lfloor>y\<rfloor> then \<lfloor>y\<rfloor> + 1
      else if even \<lfloor>y\<rfloor> then \<lfloor>y\<rfloor> else \<lfloor>y\<rfloor> + 1)"

definition fl_round :: "real \<Rightarrow> pyfloat" where
  "fl_round x =
     (if x = 0 then Fin 0
      else (let e = max (\<lfloor>log 2 \<bar>x\<bar>\<rfloor> - 52) (- 1074);
                r = of_int (round_half_even (x / pow2 e)) * pow2 e
            in if 2 ^ 1024 \<le> \<bar>r\<bar> then (if 0 < x then PosInf else NegInf) else Fin r))"

text \<open>
  The arithmetic: on finite operands the exact result, rounded; on the special values
  as IEEE 754 has it. Negation is exact.
\<close>

fun isfinite :: "pyfloat \<Rightarrow> bool" where
  "isfinite (Fin x) = True"
| "isfinite PosInf = False"
| "isfinite NegInf = False"
| "isfinite NaN = False"

fun fneg :: "pyfloat \<Rightarrow> pyfloat" where
  "fneg (Fin x) = Fin (- x)"
| "fneg PosInf = NegInf"
| "fneg NegInf = PosInf"
| "fneg NaN = NaN"

fun fadd :: "pyfloat \<Rightarrow> pyfloat \<Rightarrow> pyfloat" where
  "fadd (Fin x) (Fin y) = fl_round (x + y)"
| "fadd NaN b = NaN"
| "fadd a NaN = NaN"
| "fadd PosInf NegInf = NaN"
| "fadd NegInf PosInf = NaN"
| "fadd PosInf b = PosInf"
| "fadd NegInf b = NegInf"
| "fadd (Fin x) b = b"

definition fsub :: "pyfloat \<Rightarrow> pyfloat \<Rightarrow> pyfloat" where
  "fsub a b = fadd a (fneg b)"

fun fmul :: "pyfloat \<Rightarrow> pyfloat \<Rightarrow> pyfloat" where
  "fmul (Fin x) (Fin y) = fl_round (x * y)"
| "fmul NaN b = NaN"
| "fmul a NaN = NaN"
| "fmul (Fin x) b = (if x = 0 then NaN else if 0 < x then b else fneg b)"
| "fmul a (Fin y) = (if y = 0 then NaN else if 0 < y then a else fneg a)"
| "fmul PosInf b = b"
| "fmul NegInf b = fneg b"

text \<open>\<open>a < b\<close> on floats: false as soon as one side is not a number.\<close>

fun flt :: "pyfloat \<Rightarrow> pyfloat \<Rightarrow> bool" where
  "flt (Fin x) (Fin y) = (x < y)"
| "flt NaN b = False"
| "flt a NaN = False"
| "flt a NegInf = False"
| "flt PosInf b = False"
| "flt NegInf b = True"
| "flt (Fin x) PosInf = True"

text \<open>Truth value of a float: only zero is falsy (a not-a-number is truthy).\<close>

fun truthy :: "pyfloat \<Rightarrow> bool" where
  "truthy (Fin x) = (x \<noteq> 0)"
| "truthy PosInf = True"
| "truthy NegInf = True"
| "truthy NaN = True"

text \<open>
  A value as the metrics store hands it out: null, a boolean, an integer, a double, a
  string, bytes, or anything else (a map, an array, a timestamp).
\<close>

datatype pyval = VNone | VBool bool | VInt int | VFloat pyfloat | VStr ustr | VBytes "nat list"
  | VOther

text \<open>
  \<open>float(x)\<close>, with \<open>None\<close> for a raised exception. A float is returned as it is,
  infinities and not-a-number included. An integer becomes the nearest double, unless
  that is out of range (OverflowError). \<open>None\<close> and the other values raise TypeError.
  How text is parsed (\<open>"1.5"\<close>, \<open>"inf"\<close>, \<open>"nan"\<close>, a malformed string) is the
  interpreter's grammar, the parameter \<open>txt\<close>.
\<close>

fun py_float :: "(pyval \<Rightarrow> pyfloat option) \<Rightarrow> pyval \<Rightarrow> pyfloat option" where
  "py_float txt VNone = None"
| "py_float txt (VBool b) = Some (Fin (if b then 1 else 0))"
| "py_float txt (VInt i) =
     (case fl_round (real_of_int i) of Fin r \<Rightarrow> Some (Fin r) | PosInf \<Rightarrow> None
      | NegInf \<Rightarrow> None | NaN \<Rightarrow> None)"
| "py_float txt (VFloat f) = Some f"
| "py_float txt (VStr s) = txt (VStr s)"
| "py_float txt (VBytes b) = txt (VBytes b)"
| "py_float txt VOther = None"

text \<open>An exception, with the message \<open>str(exc)\<close> gives.\<close>

datatype exn = Exn ustr

fun str_exn :: "exn \<Rightarrow> ustr" where
  "str_exn (Exn m) = m"

section \<open>agent.py: the state and the helpers\<close>

record meta =
  m_id :: "ustr option"
  m_source :: "ustr option"
  m_title :: "ustr option"
  m_chunk :: "ustr option"

record chunk =
  c_text :: ustr
  c_score :: pyfloat
  c_metadata :: meta

record citation =
  cite_id :: "ustr option"
  cite_source :: "ustr option"
  cite_score :: pyfloat

text \<open>
  \<open>_format_context\<close>. A chunk built by \<open>node_retrieve\<close> has a string under \<open>text\<close>, so
  \<open>r.get("text") or ... or ""\<close> is that string; it has a four-key dictionary under
  \<open>metadata\<close> (truthy) and no \<open>url\<close> key in it, so the source is
  \<open>source or id or "unknown"\<close>.
\<close>

definition part_of :: "chunk \<Rightarrow> ustr" where
  "part_of r =
     (let text = c_text r;
          src = or_str (por (m_source (c_metadata r)) (por None (m_id (c_metadata r)))) (U ''unknown'')
      in U ''[SOURCE: '' @ src @ U '']'' @ [10] @ text @ [10])"

text \<open>The loop: \<open>used\<close> is the running count, the result the list \<open>pieces\<close>.\<close>

fun format_pieces :: "nat \<Rightarrow> nat \<Rightarrow> chunk list \<Rightarrow> ustr list" where
  "format_pieces max_chars used [] = []"
| "format_pieces max_chars used (r # rs) =
     (let part = part_of r
      in if used + length part > max_chars then []
         else part # format_pieces max_chars (used + length part) rs)"

definition format_context_max :: "chunk list \<Rightarrow> nat \<Rightarrow> ustr" where
  "format_context_max chunks max_chars = join [10] (format_pieces max_chars 0 chunks)"

definition format_context :: "chunk list \<Rightarrow> ustr" where
  "format_context chunks = format_context_max chunks 4000"

text \<open>Two chunks whose blocks are 2000 characters each.\<close>

definition chunk_2000 :: chunk where
  "chunk_2000 = \<lparr>c_text = replicate 1987 120, c_score = Fin 0,
     c_metadata = \<lparr>m_id = None, m_source = Some [115], m_title = None, m_chunk = None\<rparr>\<rparr>"

subsection \<open>The state and its merge policy\<close>

datatype message = HumanMessage ustr | AIMessage ustr

record tframe =
  tf_start :: "ustr option"
  tf_end :: "ustr option"

text \<open>An entry of \<open>metrics\<close>: the dictionary \<open>node_pull_metrics\<close> builds.\<close>

record point =
  p_kind :: "ustr option"
  p_ts :: "ustr option"
  p_value :: "pyfloat option"
  p_unit :: "ustr option"

record stat =
  st_mean :: "pyfloat option"
  st_stdev :: "pyfloat option"
  st_n :: nat

text \<open>
  \<open>AgentState\<close>. A key that is absent and a key that holds \<open>None\<close> read the same through
  \<open>state.get\<close>, so an optional field is \<open>None\<close> in both cases. \<open>stats\<close> is a dictionary
  in insertion order, an association list with distinct keys.
\<close>

record AgentState =
  messages :: "message list"
  user_id :: "ustr option"
  timeframe :: "tframe option"
  metric_kinds :: "ustr list"
  question :: "ustr option"
  metrics :: "point list"
  stats :: "(ustr \<times> stat) list option"
  anomalies :: "ustr list"
  relevant_chunks :: "chunk list"
  citations :: "citation list"
  safety_warnings :: "ustr list"
  answer :: "ustr option"

text \<open>
  A node returns a dictionary with some of the state's keys: a list of field updates, in
  the order of the dictionary's keys.
\<close>

datatype field_update =
    Question "ustr option"
  | MetricKinds "ustr list"
  | Metrics "point list"
  | Stats "(ustr \<times> stat) list"
  | Anomalies "ustr list"
  | RelevantChunks "chunk list"
  | Citations "citation list"
  | SafetyWarnings "ustr list"
  | Answer ustr
  | Messages "message list"

type_synonym update = "field_update list"

fun key_of :: "field_update \<Rightarrow> ustr" where
  "key_of (Question q) = U ''question''"
| "key_of (MetricKinds ks) = U ''metric_kinds''"
| "key_of (Metrics ps) = U ''metrics''"
| "key_of (Stats st) = U ''stats''"
| "key_of (Anomalies fl) = U ''anomalies''"
| "key_of (RelevantChunks cs) = U ''relevant_chunks''"
| "key_of (Citations cs) = U ''citations''"
| "key_of (SafetyWarnings ws) = U ''safety_warnings''"
| "key_of (Answer a) = U ''answer''"
| "key_of (Messages ms) = U ''messages''"

text \<open>
  The merge policy the annotations of \<open>AgentState\<close> declare; the graph library applies
  it to each key of the dictionary a node returns, as \<open>reducer(current, update)\<close>. A
  field annotated with \<open>operator.add\<close> becomes \<open>old + new\<close>; \<open>messages\<close>, annotated with
  \<open>add_messages\<close>, is appended to (the messages here carry no identifiers to replace
  by); every other field is overwritten. The input of a run is merged in the same way
  into empty fields, so the state the first node reads is the input itself.
\<close>

fun merge_field :: "AgentState \<Rightarrow> field_update \<Rightarrow> AgentState" where
  "merge_field s (Question q) = s\<lparr>question := q\<rparr>"
| "merge_field s (MetricKinds ks) = s\<lparr>metric_kinds := metric_kinds s @ ks\<rparr>"
| "merge_field s (Metrics ps) = s\<lparr>metrics := metrics s @ ps\<rparr>"
| "merge_field s (Stats st) = s\<lparr>stats := Some st\<rparr>"
| "merge_field s (Anomalies fl) = s\<lparr>anomalies := anomalies s @ fl\<rparr>"
| "merge_field s (RelevantChunks cs) = s\<lparr>relevant_chunks := relevant_chunks s @ cs\<rparr>"
| "merge_field s (Citations cs) = s\<lparr>citations := citations s @ cs\<rparr>"
| "merge_field s (SafetyWarnings ws) = s\<lparr>safety_warnings := safety_warnings s @ ws\<rparr>"
| "merge_field s (Answer a) = s\<lparr>answer := Some a\<rparr>"
| "merge_field s (Messages ms) = s\<lparr>messages := messages s @ ms\<rparr>"

definition merge :: "AgentState \<Rightarrow> update \<Rightarrow> AgentState" where
  "merge s u = foldl merge_field s u"

subsection \<open>Collaborators and effects\<close>

text \<open>
  What a stage asks of the outside world is recorded as a list of calls, in order; a
  failed call ends the stage with its exception. A datetime is the instant it denotes.
\<close>

type_synonym vector = "pyfloat list"

datatype call =
    FirestoreStream ustr int int "ustr list option"
  | QdrantClient
  | AzureOpenAIEmbeddings
  | EmbedQuery ustr
  | ClientSearch vector
  | AzureChatOpenAI
  | ChatInvoke ustr ustr

type_synonym 'a eff = "call list \<times> (exn + 'a)"

definition ret :: "'a \<Rightarrow> 'a eff" where
  "ret x = ([], Inr x)"

definition raise :: "exn \<Rightarrow> 'a eff" where
  "raise x = ([], Inl x)"

definition call :: "call \<Rightarrow> exn + 'b \<Rightarrow> ('b \<Rightarrow> 'a eff) \<Rightarrow> 'a eff" where
  "call c r k =
     (case r of
        Inl x \<Rightarrow> ([c], Inl x)
      | Inr v \<Rightarrow> (case k v of (cs, res) \<Rightarrow> (c # cs, res)))"

text \<open>A document of the metrics collection, \<open>d.to_dict() or {}\<close>, with \<open>ts\<close> already
  rendered the way the code renders it (\<open>isoformat\<close> in UTC for a datetime, \<open>str\<close>
  otherwise).\<close>

record raw_doc =
  d_kind :: "ustr option"
  d_ts :: ustr
  d_value :: pyval
  d_unit :: "ustr option"

text \<open>A point as \<open>get_user_metrics\<close> returns it.\<close>

record mpoint =
  mp_kind :: "ustr option"
  mp_ts :: ustr
  mp_value :: pyfloat
  mp_unit :: "ustr option"

text \<open>The payload of a search hit, with the keys the code reads, and the hit.\<close>

record payload =
  pl_text :: "ustr option"
  pl_page_content :: "ustr option"
  pl_id :: "ustr option"
  pl_doc_id :: "ustr option"
  pl_source :: "ustr option"
  pl_url :: "ustr option"
  pl_path :: "ustr option"
  pl_title :: "ustr option"
  pl_chunk :: "ustr option"
  pl_chunk_id :: "ustr option"

record hit =
  h_payload :: "payload option"
  h_score :: "pyfloat option"

record turn =
  t_role :: ustr
  t_content :: ustr

type_synonym conv_store = "ustr \<Rightarrow> turn list"

text \<open>
  Everything the code calls and the repository does not define. Of the interpreter and
  its library: how \<open>float\<close> reads text, the case tables, \<open>f"{x:.Nf}"\<close>, and
  \<open>datetime.fromisoformat\<close> followed by the conversion to UTC. Of the services: the
  Firestore query of the metrics collection (two bounds on \<open>ts\<close>, ordered by \<open>ts\<close>, and
  a filter on \<open>kind\<close> when one is given), the embedding, the vector search, the chat
  model (\<open>resp.content\<close>), and whether a read of the conversation collection or a write
  to it fails. The clock enters through the default time frame.
\<close>

record env =
  float_text :: "pyval \<Rightarrow> pyfloat option"
  lower_tbl :: "ustr \<Rightarrow> nat \<Rightarrow> ustr"
  upper_tbl :: "ustr \<Rightarrow> nat \<Rightarrow> ustr"
  format_f :: "nat \<Rightarrow> pyfloat \<Rightarrow> ustr"
  fromisoformat_utc :: "ustr \<Rightarrow> exn + int"
  firestore_stream :: "ustr \<Rightarrow> int \<Rightarrow> int \<Rightarrow> ustr list option \<Rightarrow> exn + raw_doc list"
  embed_query :: "ustr \<Rightarrow> exn + vector"
  client_search :: "vector \<Rightarrow> exn + hit list"
  chat_invoke :: "ustr \<Rightarrow> ustr \<Rightarrow> exn + ustr option"
  firestore_read_fault :: "conv_store \<Rightarrow> ustr \<Rightarrow> exn option"
  firestore_add_fault :: "conv_store \<Rightarrow> ustr \<Rightarrow> turn \<Rightarrow> exn option"
  default_timeframe :: tframe

definition falsy :: "ustr option \<Rightarrow> bool" where
  "falsy a = (a = None \<or> a = Some [])"

subsection \<open>The metrics reader of the store module\<close>

definition replace_Z :: "ustr \<Rightarrow> ustr" where
  "replace_Z s = concat (map (\<lambda>c. if c = 90 then U ''+00:00'' else [c]) s)"

definition parse_iso_utc :: "env \<Rightarrow> ustr \<Rightarrow> exn + int" where
  "parse_iso_utc e s =
     (if s = [] then Inl (Exn (U ''Empty ISO datetime string.''))
      else fromisoformat_utc e (replace_Z (strip s)))"

text \<open>\<open>list(dict.fromkeys(kinds))\<close>: the first occurrence of each kind, in order.\<close>

definition fromkeys :: "ustr list \<Rightarrow> ustr list" where
  "fromkeys ks = rev (remdups (rev ks))"

text \<open>
  The filter on \<open>kind\<close> that goes into the query: the distinct kinds when there are
  some and at most ten of them, none otherwise.
\<close>

definition kind_filter :: "ustr list \<Rightarrow> ustr list option" where
  "kind_filter kinds =
     (if kinds \<noteq> [] \<and> length (fromkeys kinds) \<le> 10 then Some (fromkeys kinds) else None)"

text \<open>
  The body of the loop over the documents: \<open>None\<close> where the code says \<open>continue\<close>. A
  document is skipped when more than ten kinds were asked for and its kind is not one of
  them, and when \<open>float\<close> raises on its value.
\<close>

definition doc_point :: "env \<Rightarrow> ustr list \<Rightarrow> raw_doc \<Rightarrow> mpoint option" where
  "doc_point e kinds d =
     (if kinds \<noteq> [] \<and> length kinds > 10
          \<and> (case d_kind d of None \<Rightarrow> True | Some k \<Rightarrow> k \<notin> set kinds)
      then None
      else (case py_float (float_text e) (d_value d) of
              None \<Rightarrow> None
            | Some val \<Rightarrow>
                Some \<lparr>mp_kind = d_kind d, mp_ts = d_ts d, mp_value = val, mp_unit = d_unit d\<rparr>))"

definition get_user_metrics :: "env \<Rightarrow> ustr \<Rightarrow> ustr \<Rightarrow> ustr \<Rightarrow> ustr list \<Rightarrow> mpoint list eff" where
  "get_user_metrics e uid start_iso end_iso kinds =
     (case parse_iso_utc e start_iso of
        Inl x \<Rightarrow> raise x
      | Inr start_dt \<Rightarrow>
          (case parse_iso_utc e end_iso of
             Inl x \<Rightarrow> raise x
           | Inr end_dt \<Rightarrow>
               call (FirestoreStream uid start_dt end_dt (kind_filter kinds))
                 (firestore_stream e uid start_dt end_dt (kind_filter kinds))
                 (\<lambda>docs. ret (List.map_filter (doc_point e kinds) docs))))"

subsection \<open>agent.py: the six nodes\<close>

text \<open>\<open>_safe_float\<close>: \<open>float(x)\<close>, with \<open>None\<close> when it raises.\<close>

definition safe_float :: "env \<Rightarrow> pyval \<Rightarrow> pyfloat option" where
  "safe_float e x = py_float (float_text e) x"

text \<open>
  \<open>node_parse_user\<close>. The messages are message objects (the endpoints build them, and
  \<open>add_messages\<close> turns a dictionary into one), so the loop stops at the last
  \<open>HumanMessage\<close>.
\<close>

fun last_human :: "message list \<Rightarrow> ustr option" where
  "last_human [] = None"
| "last_human (HumanMessage c # ms) = Some (strip c)"
| "last_human (AIMessage c # ms) = last_human ms"

definition node_parse_user :: "AgentState \<Rightarrow> update eff" where
  "node_parse_user state =
     ret [Question (last_human (rev (messages state))),
          MetricKinds (metric_kinds state),
          Metrics [], Anomalies [], RelevantChunks [], Citations [], SafetyWarnings []]"

definition node_pull_metrics :: "env \<Rightarrow> AgentState \<Rightarrow> update eff" where
  "node_pull_metrics e state =
     (let tf = (case timeframe state of None \<Rightarrow> \<lparr>tf_start = None, tf_end = None\<rparr> | Some t \<Rightarrow> t);
          kinds = metric_kinds state
      in if falsy (user_id state) \<or> falsy (tf_start tf) \<or> falsy (tf_end tf)
         then ret [Metrics []]
         else (case get_user_metrics e (or_str (user_id state) []) (or_str (tf_start tf) [])
                      (or_str (tf_end tf) []) kinds of
                 (cs, Inl x) \<Rightarrow> (cs, Inl x)
               | (cs, Inr data) \<Rightarrow>
                   (cs, Inr [Metrics (map (\<lambda>p. \<lparr>p_kind = mp_kind p, p_ts = Some (mp_ts p),
                        p_value = safe_float e (VFloat (mp_value p)), p_unit = mp_unit p\<rparr>) data)])))"

text \<open>
  \<open>node_analyze\<close>. \<open>by_kind\<close> is a dictionary in insertion order;
  \<open>by_kind.setdefault(k, []).append(v)\<close> extends the list of \<open>k\<close> where it stands, or
  adds \<open>k\<close> at the end.
\<close>

fun setdefault_append :: "(ustr \<times> pyfloat list) list \<Rightarrow> ustr \<Rightarrow> pyfloat \<Rightarrow> (ustr \<times> pyfloat list) list" where
  "setdefault_append [] k v = [(k, [v])]"
| "setdefault_append ((k', vs) # rest) k v =
     (if k' = k then (k', vs @ [v]) # rest else (k', vs) # setdefault_append rest k v)"

definition as_val :: "pyfloat option \<Rightarrow> pyval" where
  "as_val v = (case v of None \<Rightarrow> VNone | Some f \<Rightarrow> VFloat f)"

fun group_points :: "env \<Rightarrow> (ustr \<times> pyfloat list) list \<Rightarrow> point list \<Rightarrow> (ustr \<times> pyfloat list) list" where
  "group_points e by_kind [] = by_kind"
| "group_points e by_kind (p # ps) =
     (case safe_float e (as_val (p_value p)) of
        None \<Rightarrow> group_points e by_kind ps
      | Some v \<Rightarrow>
          (case p_kind p of
             None \<Rightarrow> group_points e by_kind ps
           | Some k \<Rightarrow>
               if k = [] then group_points e by_kind ps
               else group_points e (setdefault_append by_kind k v) ps))"

text \<open>
  \<open>statistics.mean\<close> and \<open>statistics.pstdev\<close> on a list of floats, as the library of
  Python 3.11 has them. Both add up exact fractions and round once, at the end: on
  finite data the mean is the double nearest to the arithmetic mean, and the deviation
  the double nearest to the square root of the mean squared deviation from the exact
  mean. On data that holds an infinity or a not-a-number, \<open>mean\<close> returns the float sum
  of these values (over the count, which changes nothing), and \<open>pstdev\<close> ends up with
  such a float where it expects a fraction and raises AttributeError for its
  \<open>numerator\<close>.
\<close>

fun real_of :: "pyfloat \<Rightarrow> real" where
  "real_of (Fin x) = x"
| "real_of PosInf = 0"
| "real_of NegInf = 0"
| "real_of NaN = 0"

definition no_numerator :: exn where
  "no_numerator = Exn ([39] @ U ''float'' @ [39] @ U '' object has no attribute ''
     @ [39] @ U ''numerator'' @ [39])"

definition mean :: "pyfloat list \<Rightarrow> exn + pyfloat" where
  "mean data =
     (if data = [] then Inl (Exn (U ''mean requires at least one data point''))
      else if list_all isfinite data
      then Inr (fl_round (sum_list (map real_of data) / real (length data)))
      else Inr (foldl fadd (Fin 0) (filter (\<lambda>x. \<not> isfinite x) data)))"

definition pstdev :: "pyfloat list \<Rightarrow> exn + pyfloat" where
  "pstdev data =
     (if data = [] then Inl (Exn (U ''pstdev requires at least one data point''))
      else if list_all isfinite data
      then (let xs = map real_of data; c = sum_list xs / real (length xs)
            in Inr (fl_round (sqrt (sum_list (map (\<lambda>x. (x - c)\<^sup>2) xs) / real (length xs)))))
      else Inl no_numerator)"

text \<open>\<open>_mean_sd\<close>: the two library calls are made on lists of two values or more.\<close>

fun mean_sd :: "pyfloat list \<Rightarrow> exn + pyfloat option \<times> pyfloat option" where
  "mean_sd [] = Inr (None, None)"
| "mean_sd [v] = Inr (Some v, Some (Fin 0))"
| "mean_sd vals =
     (case mean vals of
        Inl x \<Rightarrow> Inl x
      | Inr mu \<Rightarrow>
          (case pstdev vals of
             Inl x \<Rightarrow> Inl x
           | Inr sd \<Rightarrow> Inr (Some mu, Some sd)))"

text \<open>
  The bounds and the outliers of \<open>node_analyze\<close>: the product, the difference and the
  sum are each rounded.
\<close>

definition outliers :: "pyfloat \<Rightarrow> pyfloat \<Rightarrow> pyfloat list \<Rightarrow> pyfloat list" where
  "outliers mu sd vals =
     (let lo = fsub mu (fmul (Fin 2.5) sd); hi = fadd mu (fmul (Fin 2.5) sd)
      in filter (\<lambda>v. flt v lo \<or> flt hi v) vals)"

text \<open>The text of a flag; 177 is the plus-minus sign and 963 the small sigma.\<close>

definition flag_text :: "ustr \<Rightarrow> nat \<Rightarrow> ustr" where
  "flag_text k n = k @ U '': '' @ str_nat n @ U '' outlier(s) beyond '' @ [177] @ U ''2.5'' @ [963]"

text \<open>What one round of the second loop appends to \<open>flags\<close>.\<close>

definition flags_of :: "ustr \<Rightarrow> pyfloat option \<Rightarrow> pyfloat option \<Rightarrow> pyfloat list \<Rightarrow> ustr list" where
  "flags_of k mu sd vals =
     (case mu of
        None \<Rightarrow> []
      | Some m \<Rightarrow>
          (case sd of
             None \<Rightarrow> []
           | Some s \<Rightarrow>
               if truthy s \<and> flt (Fin 0) s
               then (if outliers m s vals = [] then []
                     else [flag_text k (length (outliers m s vals))])
               else []))"

text \<open>
  The second loop. An exception of \<open>_mean_sd\<close> ends it; otherwise the entry of the
  kind is written and its flag, if any, appended.
\<close>

fun analyze_groups :: "(ustr \<times> pyfloat list) list \<Rightarrow> exn + (ustr \<times> stat) list \<times> ustr list" where
  "analyze_groups [] = Inr ([], [])"
| "analyze_groups ((k, vals) # rest) =
     (case mean_sd vals of
        Inl x \<Rightarrow> Inl x
      | Inr (mu, sd) \<Rightarrow>
          (case analyze_groups rest of
             Inl x \<Rightarrow> Inl x
           | Inr (sts, flags) \<Rightarrow>
               Inr ((k, \<lparr>st_mean = mu, st_stdev = sd, st_n = length vals\<rparr>) # sts,
                    flags_of k mu sd vals @ flags)))"

definition node_analyze :: "env \<Rightarrow> AgentState \<Rightarrow> update eff" where
  "node_analyze e state =
     (case analyze_groups (group_points e [] (metrics state)) of
        Inl x \<Rightarrow> raise x
      | Inr (sts, flags) \<Rightarrow> ret [Stats sts, Anomalies flags])"

text \<open>\<open>node_retrieve\<close>: the enriched query, the two calls, and the mapping of the hits.\<close>

definition enrich_for :: "env \<Rightarrow> (ustr \<times> stat) list \<Rightarrow> ustr \<Rightarrow> ustr list" where
  "enrich_for e sts k =
     (case map_of sts k of
        None \<Rightarrow> []
      | Some st \<Rightarrow>
          (case st_mean st of
             None \<Rightarrow> []
           | Some mu \<Rightarrow> [k @ U '' mean '' @ format_f e 1 mu]))"

definition enriched_query :: "env \<Rightarrow> (ustr \<times> stat) list \<Rightarrow> ustr \<Rightarrow> ustr" where
  "enriched_query e sts q =
     (let enrich = concat (map (enrich_for e sts) [U ''hr'', U ''hrv'', U ''sleep'', U ''steps''])
      in if enrich = [] then q else q @ U '' | '' @ join (U ''; '') enrich)"

definition empty_payload :: payload where
  "empty_payload = \<lparr>pl_text = None, pl_page_content = None, pl_id = None, pl_doc_id = None,
     pl_source = None, pl_url = None, pl_path = None, pl_title = None, pl_chunk = None,
     pl_chunk_id = None\<rparr>"

definition hit_meta :: "hit \<Rightarrow> meta" where
  "hit_meta h =
     (let payload = (case h_payload h of None \<Rightarrow> empty_payload | Some p \<Rightarrow> p)
      in \<lparr>m_id = por (pl_id payload) (pl_doc_id payload),
          m_source = por (pl_source payload) (por (pl_url payload) (pl_path payload)),
          m_title = pl_title payload,
          m_chunk = por (pl_chunk payload) (pl_chunk_id payload)\<rparr>)"

definition hit_text :: "hit \<Rightarrow> ustr" where
  "hit_text h =
     (let payload = (case h_payload h of None \<Rightarrow> empty_payload | Some p \<Rightarrow> p)
      in or_str (por (pl_text payload) (pl_page_content payload)) [])"

text \<open>\<open>float(hit.score or 0.0)\<close>.\<close>

definition hit_score :: "hit \<Rightarrow> pyfloat" where
  "hit_score h = (case h_score h of None \<Rightarrow> Fin 0 | Some f \<Rightarrow> if truthy f then f else Fin 0)"

definition hit_chunk :: "hit \<Rightarrow> chunk" where
  "hit_chunk h = \<lparr>c_text = hit_text h, c_score = hit_score h, c_metadata = hit_meta h\<rparr>"

definition hit_cite :: "hit \<Rightarrow> citation" where
  "hit_cite h = \<lparr>cite_id = m_id (hit_meta h), cite_source = m_source (hit_meta h),
     cite_score = hit_score h\<rparr>"

definition node_retrieve :: "env \<Rightarrow> AgentState \<Rightarrow> update eff" where
  "node_retrieve e state =
     (let q = strip (or_str (question state) [])
      in if q = [] then ret [RelevantChunks [], Citations []]
         else (let sts = (case stats state of None \<Rightarrow> [] | Some st \<Rightarrow> st);
                   enriched = enriched_query e sts q
               in call QdrantClient (Inr ()) (\<lambda>client.
                  call AzureOpenAIEmbeddings (Inr ()) (\<lambda>emb.
                  call (EmbedQuery enriched) (embed_query e enriched) (\<lambda>vector.
                  call (ClientSearch vector) (client_search e vector) (\<lambda>results.
                  ret [RelevantChunks (map hit_chunk results),
                       Citations (map hit_cite results)]))))))"

text \<open>\<open>node_safety\<close>.\<close>

definition EMERGENCY_SIGNS :: "ustr list" where
  "EMERGENCY_SIGNS = [U ''crushing chest pain'', U ''shortness of breath'', U ''fainting'',
     U ''stroke'', U ''severe bleeding'', U ''unconscious'']"

text \<open>The two warnings; 8212 is the em dash.\<close>

definition urgent_warning :: ustr where
  "urgent_warning = U ''Possible emergency symptoms mentioned '' @ [8212]
     @ U '' advise urgent in-person care.''"

definition hr_warning :: ustr where
  "hr_warning = U ''Unusual heart rate pattern detected; seek medical review if persistent.''"

text \<open>The list \<open>warnings\<close> the function builds.\<close>

definition warnings :: "env \<Rightarrow> AgentState \<Rightarrow> ustr list" where
  "warnings e state =
     (let q = lower (lower_tbl e) (or_str (question state) [])
      in (if list_ex (\<lambda>k. contains k q) EMERGENCY_SIGNS then [urgent_warning] else [])
         @ (if list_ex (\<lambda>a. prefix (U ''hr:'') a) (anomalies state) then [hr_warning] else []))"

definition node_safety :: "env \<Rightarrow> AgentState \<Rightarrow> update eff" where
  "node_safety e state = ret [SafetyWarnings (warnings e state)]"

text \<open>\<open>_citation_block\<close>; the score of a citation is always a float.\<close>

fun citation_lines :: "env \<Rightarrow> nat \<Rightarrow> citation list \<Rightarrow> ustr list" where
  "citation_lines e i [] = []"
| "citation_lines e i (c # cs) =
     (U ''['' @ str_nat i @ U ''] '' @ or_str (cite_source c) (U ''unknown'')
        @ U '' (sim '' @ format_f e 3 (cite_score c) @ U '')'')
     # citation_lines e (Suc i) cs"

definition citation_block :: "env \<Rightarrow> citation list \<Rightarrow> ustr" where
  "citation_block e cs = join [10] (citation_lines e 1 cs)"

definition SYSTEM_INSTRUCTIONS :: ustr where
  "SYSTEM_INSTRUCTIONS = U ''You are a careful health information assistant. ''
     @ U ''Personalize using the user's metrics and ONLY the retrieved context. ''
     @ U ''Use bracketed citations like [1], [2]. ''
     @ U ''Do not provide diagnosis or dosing; be concise and structured.''"

definition disclaimer :: ustr where
  "disclaimer = U ''Note: This is general information based on your data and referenced materials, ''
     @ U ''not medical advice. For diagnosis, dosing, or urgent issues, consult a clinician ''
     @ U ''or seek in-person care.''"

text \<open>\<open>node_answer\<close>: one line of the metrics summary, the prompt, the call.\<close>

definition summary_part :: "env \<Rightarrow> ustr \<times> stat \<Rightarrow> ustr list" where
  "summary_part e kst =
     (case kst of (k, st) \<Rightarrow>
        (case st_mean st of
           None \<Rightarrow> []
         | Some mu \<Rightarrow>
             if st_n st = 0 then []
             else [U ''- '' @ upper (upper_tbl e) k @ U '': mean '' @ format_f e 1 mu
                   @ (case st_stdev st of
                        None \<Rightarrow> []
                      | Some sd \<Rightarrow> U '', '' @ [963] @ U '' '' @ format_f e 1 sd)
                   @ U '' over '' @ str_nat (st_n st) @ U '' pts'']))"

definition user_prompt :: "env \<Rightarrow> AgentState \<Rightarrow> ustr" where
  "user_prompt e state =
     (let parts = concat (map (summary_part e) (case stats state of None \<Rightarrow> [] | Some st \<Rightarrow> st));
          metrics_summary = (if parts = []
             then U ''No recent metrics available for the requested window.''
             else join [10] parts);
          context = format_context (relevant_chunks state);
          cites = citation_block e (citations state)
      in U ''Question:'' @ [10] @ or_str (question state) [] @ [10, 10]
         @ U ''Your recent metrics (summary):'' @ [10] @ metrics_summary @ [10]
         @ (if anomalies state = [] then []
            else [10] @ U ''Detected anomalies:'' @ [10] @ U ''- ''
                 @ join ([10] @ U ''- '') (anomalies state) @ [10])
         @ [10] @ U ''Context (verbatim excerpts):'' @ [10] @ context @ [10, 10]
         @ U ''Instructions:'' @ [10]
         @ U ''- Personalize using the user's metrics.'' @ [10]
         @ U ''- Use ONLY the provided context for claims; add bracketed citations.'' @ [10]
         @ U ''- If context is insufficient, say so and suggest what data or timeframe would help.'' @ [10]
         @ U ''- Keep the answer under ~180 words.'' @ [10]
         @ (if safety_warnings state = [] then []
            else [10] @ U ''Safety considerations:'' @ [10] @ U ''- ''
                 @ join ([10] @ U ''- '') (safety_warnings state) @ [10])
         @ (if cites = [] then []
            else [10] @ U ''Sources:'' @ [10] @ cites @ [10]))"

definition node_answer :: "env \<Rightarrow> AgentState \<Rightarrow> update eff" where
  "node_answer e state =
     (let prompt = user_prompt e state
      in call AzureChatOpenAI (Inr ()) (\<lambda>llm.
         call (ChatInvoke SYSTEM_INSTRUCTIONS prompt) (chat_invoke e SYSTEM_INSTRUCTIONS prompt)
           (\<lambda>resp.
              (let content = strip (or_str resp []) @ [10, 10] @ disclaimer
               in ret [Answer content, Messages [AIMessage content]]))))"

subsection \<open>The graph\<close>

text \<open>\<open>build_graph\<close>: six nodes on a line, from START to END.\<close>

definition GRAPH :: "env \<Rightarrow> (ustr \<times> (AgentState \<Rightarrow> update eff)) list" where
  "GRAPH e =
     [(U ''parse_user'', node_parse_user),
      (U ''pull_metrics'', node_pull_metrics e),
      (U ''analyze_metrics'', node_analyze e),
      (U ''retrieve_guidance'', node_retrieve e),
      (U ''safety'', node_safety e),
      (U ''answer'', node_answer e)]"

text \<open>
  A run: each node gets the state, its update is merged, and the next node runs; an
  exception ends the run. The result holds the calls made, the updates of the nodes that
  completed (what \<open>astream\<close> yields in its updates mode, one per node), and the final
  state or the exception.
\<close>

fun run_stages :: "(ustr \<times> (AgentState \<Rightarrow> update eff)) list \<Rightarrow> AgentState
    \<Rightarrow> call list \<times> (ustr \<times> update) list \<times> (exn + AgentState)" where
  "run_stages [] s = ([], [], Inr s)"
| "run_stages ((name, node) # rest) s =
     (case node s of
        (cs, Inl x) \<Rightarrow> (cs, [], Inl x)
      | (cs, Inr u) \<Rightarrow>
          (case run_stages rest (merge s u) of
             (cs', ups, r) \<Rightarrow> (cs @ cs', (name, u) # ups, r)))"

definition graph_invoke :: "env \<Rightarrow> AgentState \<Rightarrow> exn + AgentState" where
  "graph_invoke e s = snd (snd (run_stages (GRAPH e) s))"

definition graph_astream :: "env \<Rightarrow> AgentState \<Rightarrow> (ustr \<times> update) list \<times> exn option" where
  "graph_astream e s =
     (case run_stages (GRAPH e) s of
        (cs, ups, Inl x) \<Rightarrow> (ups, Some x)
      | (cs, ups, Inr s') \<Rightarrow> (ups, None))"

section \<open>main.py: the two chat endpoints\<close>

text \<open>
  The conversation collection holds, for each user, the turns in the order of their
  \<open>created_at\<close>, which is the order they were added in. A read either fails or returns
  the turns; a write either fails and leaves the collection as it was, or adds the turn.
\<close>

record settings =
  max_context_messages :: int
  default_metric_kinds :: "ustr list"

record ChatRequest =
  r_user_id :: ustr
  r_message :: ustr
  r_timeframe :: "(ustr \<times> ustr) option"
  r_metric_kinds :: "ustr list option"

record ChatResponse =
  reply :: ustr
  used_docs :: "citation list"

text \<open>\<open>messages[-limit:]\<close>, for any integer \<open>limit\<close>.\<close>

definition last_slice :: "int \<Rightarrow> 'a list \<Rightarrow> 'a list" where
  "last_slice limit xs =
     (if 0 < limit then drop (length xs - nat limit) xs else drop (nat (- limit)) xs)"

text \<open>\<open>fetch_context\<close>: the query of the collection, then the last \<open>limit\<close> turns.\<close>

definition fetch_context :: "env \<Rightarrow> settings \<Rightarrow> conv_store \<Rightarrow> ustr \<Rightarrow> int \<Rightarrow> exn + turn list" where
  "fetch_context e cfg db uid limit =
     (case firestore_read_fault e db uid of
        Some x \<Rightarrow> Inl x
      | None \<Rightarrow> Inr (last_slice (if limit = 0 then max_context_messages cfg else limit) (db uid)))"

definition append_turn :: "env \<Rightarrow> conv_store \<Rightarrow> ustr \<Rightarrow> ustr \<Rightarrow> ustr \<Rightarrow> exn + conv_store" where
  "append_turn e db uid role content =
     (let t = \<lparr>t_role = role, t_content = content\<rparr>
      in case firestore_add_fault e db uid t of
           Some x \<Rightarrow> Inl x
         | None \<Rightarrow> Inr (db(uid := db uid @ [t])))"

definition to_lc_history :: "env \<Rightarrow> turn list \<Rightarrow> message list" where
  "to_lc_history e context =
     map (\<lambda>m. if lower (lower_tbl e) (t_role m) = U ''assistant''
              then AIMessage (t_content m) else HumanMessage (t_content m)) context"

text \<open>The state both endpoints start the graph with, from the history they have read.\<close>

definition initial_state :: "env \<Rightarrow> settings \<Rightarrow> turn list \<Rightarrow> ChatRequest \<Rightarrow> AgentState" where
  "initial_state e cfg history_raw body =
     (let history_msgs = to_lc_history e history_raw
      in \<lparr>messages = history_msgs @ [HumanMessage (r_message body)],
          user_id = Some (r_user_id body),
          timeframe = Some (case r_timeframe body of
                              None \<Rightarrow> default_timeframe e
                            | Some (a, b) \<Rightarrow> \<lparr>tf_start = Some a, tf_end = Some b\<rparr>),
          metric_kinds = (case r_metric_kinds body of
                            None \<Rightarrow> default_metric_kinds cfg
                          | Some ks \<Rightarrow> if ks = [] then default_metric_kinds cfg else ks),
          question = None,
          metrics = [],
          stats = None,
          anomalies = [],
          relevant_chunks = [],
          citations = [],
          safety_warnings = [],
          answer = None\<rparr>)"

text \<open>
  \<open>chat\<close>: the response or the exception that reaches the caller, and the collection
  afterwards. The history is read first; an exception there, as one of the graph or of
  a write, is not caught.
\<close>

definition chat :: "env \<Rightarrow> settings \<Rightarrow> conv_store \<Rightarrow> ChatRequest \<Rightarrow> (exn + ChatResponse) \<times> conv_store" where
  "chat e cfg db body =
     (case fetch_context e cfg db (r_user_id body) (max_context_messages cfg) of
        Inl x \<Rightarrow> (Inl x, db)
      | Inr history_raw \<Rightarrow>
          (case graph_invoke e (initial_state e cfg history_raw body) of
             Inl x \<Rightarrow> (Inl x, db)
           | Inr result \<Rightarrow>
               (let reply = strip (or_str (answer result) [])
                in case append_turn e db (r_user_id body) (U ''user'') (r_message body) of
                     Inl x \<Rightarrow> (Inl x, db)
                   | Inr db1 \<Rightarrow>
                       (case append_turn e db1 (r_user_id body) (U ''assistant'') reply of
                          Inl x \<Rightarrow> (Inl x, db1)
                        | Inr db2 \<Rightarrow>
                            (Inr \<lparr>reply = reply, used_docs = citations result\<rparr>, db2)))))"

text \<open>
  \<open>chat_stream\<close>. What the generator \<open>sse_gen\<close> yields is a list of events: each is one
  \<open>data:\<close> line of the stream, the JSON object or the marker \<open>[DONE]\<close>.
\<close>

datatype event =
    NodeEvent ustr "ustr list"
  | FinalEvent ustr
  | ErrorEvent ustr
  | DONE

text \<open>\<open>maybe_state.get("answer")\<close>.\<close>

fun get_answer :: "update \<Rightarrow> ustr option" where
  "get_answer [] = None"
| "get_answer (Answer a # u) = Some a"
| "get_answer (f # u) = get_answer u"

text \<open>The loop over the updates, with \<open>final_answer\<close> as it stands before the round.\<close>

fun sse_loop :: "ustr \<Rightarrow> (ustr \<times> update) list \<Rightarrow> event list \<times> ustr" where
  "sse_loop final_answer [] = ([], final_answer)"
| "sse_loop final_answer ((node_name, payload) # ups) =
     (let final_answer' = (case get_answer payload of
                             None \<Rightarrow> final_answer
                           | Some ans \<Rightarrow> if ans \<noteq> [] then ans else final_answer);
          event = NodeEvent node_name (map key_of payload)
      in case sse_loop final_answer' ups of (evs, fa) \<Rightarrow> (event # evs, fa))"

text \<open>
  The generator: the loop, the two writes and the final event inside \<open>try\<close>, the error
  event for any exception, and the marker in \<open>finally\<close>.
\<close>

definition sse_gen :: "env \<Rightarrow> AgentState \<Rightarrow> conv_store \<Rightarrow> ChatRequest \<Rightarrow> event list \<times> conv_store" where
  "sse_gen e initial db body =
     (case graph_astream e initial of (ups, failure) \<Rightarrow>
        (case sse_loop [] ups of (evs, final_answer) \<Rightarrow>
           (case failure of
              Some x \<Rightarrow> (evs @ [ErrorEvent (str_exn x), DONE], db)
            | None \<Rightarrow>
                (case append_turn e db (r_user_id body) (U ''user'') (r_message body) of
                   Inl x \<Rightarrow> (evs @ [ErrorEvent (str_exn x), DONE], db)
                 | Inr db1 \<Rightarrow>
                     (case append_turn e db1 (r_user_id body) (U ''assistant'') final_answer of
                        Inl x \<Rightarrow> (evs @ [ErrorEvent (str_exn x), DONE], db1)
                      | Inr db2 \<Rightarrow> (evs @ [FinalEvent final_answer, DONE], db2))))))"

text \<open>
  The handler reads the history and builds the state before it returns the streaming
  response: an exception of the read reaches the caller and there is no stream.
  Otherwise the response is the stream of \<open>sse_gen\<close>.
\<close>

definition chat_stream :: "env \<Rightarrow> settings \<Rightarrow> conv_store \<Rightarrow> ChatRequest \<Rightarrow> (exn + event list) \<times> conv_store" where
  "chat_stream e cfg db body =
     (case fetch_context e cfg db (r_user_id body) (max_context_messages cfg) of
        Inl x \<Rightarrow> (Inl x, db)
      | Inr history_raw \<Rightarrow>
          (case sse_gen e (initial_state e cfg history_raw body) db body of
             (evs, db') \<Rightarrow> (Inr evs, db')))"

section \<open>The group of a kind\<close>

text \<open>
  What the specification calls the group of a metric kind: the values of the points of
  that kind, in the order of \<open>metrics\<close>. A point without a value belongs to no group, and
  neither does a point without a kind or with the empty string for one. This is the
  reference the analyzer's dictionary is compared with.
\<close>

definition group_values :: "ustr \<Rightarrow> point list \<Rightarrow> pyfloat list" where
  "group_values k pts =
     (if k = [] then []
      else List.map_filter (\<lambda>p. if p_kind p = Some k then p_value p else None) pts)"

text \<open>
  The entry of \<open>stats\<close> for a group that is not empty, as the specification describes
  it: for one value, that value and a deviation of zero; for more, the arithmetic mean
  and the population deviation (the divisor is the count), each as the nearest double.
\<close>

definition group_stat :: "pyfloat list \<Rightarrow> stat" where
  "group_stat vals =
     (let xs = map real_of vals; n = length vals
      in if n = 1 then \<lparr>st_mean = Some (hd vals), st_stdev = Some (Fin 0), st_n = 1\<rparr>
         else \<lparr>st_mean = Some (fl_round (sum_list xs / real n)),
               st_stdev = Some (fl_round (sqrt (sum_list (map (\<lambda>x. (x - sum_list xs / real n)\<^sup>2) xs) / real n))),
               st_n = n\<rparr>)"

text \<open>
  The flag of one kind, as the specification words it, from the mean and the deviation
  that \<open>stats\<close> holds for the kind: the deviation is above zero and some value lies
  strictly outside the interval of 2.5 deviations around the mean; the text counts
  those values. The two ends of the interval are computed in doubles, the product
  first, and a value is outside when it is below the lower end or above the upper one.
\<close>

definition spec_flag :: "ustr \<Rightarrow> pyfloat option \<Rightarrow> pyfloat option \<Rightarrow> pyfloat list \<Rightarrow> ustr list" where
  "spec_flag k mu sd vals =
     (case mu of
        None \<Rightarrow> []
      | Some m \<Rightarrow>
          (case sd of
             None \<Rightarrow> []
           | Some d \<Rightarrow>
               (let lo = fsub m (fmul (Fin 2.5) d); hi = fadd m (fmul (Fin 2.5) d);
                    outside = (\<lambda>v. flt v lo \<or> flt hi v)
                in if flt (Fin 0) d \<and> (\<exists>v \<in> set vals. outside v)
                   then [flag_text k (length (filter outside vals))]
                   else [])))"

section \<open>One step of the graph, and sample inputs\<close>

text \<open>The state after one node: its update merged into the state it was given.\<close>

definition after_node :: "(AgentState \<Rightarrow> update eff) \<Rightarrow> AgentState \<Rightarrow> exn + AgentState" where
  "after_node node s = (case node s of (cs, Inl x) \<Rightarrow> Inl x | (cs, Inr u) \<Rightarrow> Inr (merge s u))"

text \<open>A state object that still holds the lists of an earlier run.\<close>

definition stale_point :: point where
  "stale_point = \<lparr>p_kind = Some (U ''hr''), p_ts = None, p_value = Some (Fin 60), p_unit = None\<rparr>"

definition stale_chunk :: chunk where
  "stale_chunk = \<lparr>c_text = U ''old'', c_score = Fin 1,
     c_metadata = \<lparr>m_id = None, m_source = None, m_title = None, m_chunk = None\<rparr>\<rparr>"

definition stale_citation :: citation where
  "stale_citation = \<lparr>cite_id = None, cite_source = None, cite_score = Fin 1\<rparr>"

definition stale_state :: AgentState where
  "stale_state = \<lparr>messages = [HumanMessage (U ''hello'')], user_id = None, timeframe = None,
     metric_kinds = [], question = None, metrics = [stale_point], stats = None,
     anomalies = [U ''hr: 1 outlier(s)''], relevant_chunks = [stale_chunk],
     citations = [stale_citation], safety_warnings = [U ''old warning''], answer = None\<rparr>"

text \<open>
  An environment for the examples: ASCII-only case tables, no text accepted by \<open>float\<close>,
  a store without metrics, an index without documents, a model that answers \<open>ok\<close>, and
  a conversation collection whose reads and writes succeed.
\<close>

definition env0 :: env where
  "env0 = \<lparr>float_text = (\<lambda>v. None),
     lower_tbl = (\<lambda>s i. [s ! i]),
     upper_tbl = (\<lambda>s i. [s ! i]),
     format_f = (\<lambda>n f. U ''0.0''),
     fromisoformat_utc = (\<lambda>s. Inr 0),
     firestore_stream = (\<lambda>uid a b ks. Inr []),
     embed_query = (\<lambda>q. Inr []),
     client_search = (\<lambda>v. Inr []),
     chat_invoke = (\<lambda>sys usr. Inr (Some (U ''ok''))),
     firestore_read_fault = (\<lambda>db uid. None),
     firestore_add_fault = (\<lambda>db uid t. None),
     default_timeframe = \<lparr>tf_start = Some (U ''2025-01-01''), tf_end = Some (U ''2025-01-08'')\<rparr>\<rparr>"

definition fresh_state :: AgentState where
  "fresh_state = \<lparr>messages = [HumanMessage (U ''how is my heart rate?'')],
     user_id = Some (U ''u1''),
     timeframe = Some \<lparr>tf_start = Some (U ''2025-01-01''), tf_end = Some (U ''2025-01-08'')\<rparr>,
     metric_kinds = [U ''hr''], question = None, metrics = [], stats = None,
     anomalies = [], relevant_chunks = [], citations = [], safety_warnings = [], answer = None\<rparr>"

definition blank_state :: AgentState where
  "blank_state = fresh_state\<lparr>question := Some [32, 9, 10]\<rparr>"

definition env_down :: env where
  "env_down = env0\<lparr>embed_query := (\<lambda>q. Inl (Exn (U ''embedding service down''))),
     client_search := (\<lambda>v. Inl (Exn (U ''index down'')))\<rparr>"

definition hit1 :: hit where
  "hit1 = \<lparr>h_payload = Some (empty_payload\<lparr>pl_text := Some (U ''Sleep seven hours.''),
       pl_doc_id := Some (U ''d1''), pl_url := Some (U ''https://example.org/sleep'')\<rparr>),
     h_score = Some (Fin 0.75)\<rparr>"

definition hit2 :: hit where
  "hit2 = \<lparr>h_payload = None, h_score = None\<rparr>"

definition env_hits :: env where
  "env_hits = env0\<lparr>client_search := (\<lambda>v. Inr [hit1, hit2])\<rparr>"

definition asked_state :: AgentState where
  "asked_state = fresh_state\<lparr>question := Some (U ''sleep'')\<rparr>"

definition unconscious_state :: AgentState where
  "unconscious_state = fresh_state\<lparr>question := Some (U ''he is '' @ U ''unconscious'' @ U '' now'')\<rparr>"

text \<open>
  A store that holds three points for the week: a double, a string that \<open>float\<close>
  rejects, and the double \<open>Infinity\<close>.
\<close>

definition doc_ok :: raw_doc where
  "doc_ok = \<lparr>d_kind = Some (U ''hr''), d_ts = U ''2025-01-02T00:00:00+00:00'',
     d_value = VFloat (Fin 61), d_unit = Some (U ''bpm'')\<rparr>"

definition doc_text :: raw_doc where
  "doc_text = \<lparr>d_kind = Some (U ''hr''), d_ts = U ''2025-01-03T00:00:00+00:00'',
     d_value = VStr (U ''n/a''), d_unit = Some (U ''bpm'')\<rparr>"

definition doc_inf :: raw_doc where
  "doc_inf = \<lparr>d_kind = Some (U ''hr''), d_ts = U ''2025-01-04T00:00:00+00:00'',
     d_value = VFloat PosInf, d_unit = Some (U ''bpm'')\<rparr>"

definition env_inf :: env where
  "env_inf = env0\<lparr>firestore_stream := (\<lambda>uid a b ks. Inr [doc_inf])\<rparr>"

definition env_mixed :: env where
  "env_mixed = env0\<lparr>firestore_stream := (\<lambda>uid a b ks. Inr [doc_ok, doc_text, doc_inf])\<rparr>"

text \<open>
  Metrics for the analyzer. The first list has the values 10 and 20 for \<open>hr\<close>, one value
  for \<open>steps\<close>, and a point of kind \<open>sleep\<close> without a value. The second has the
  values \<open>spike\<close> for \<open>hr\<close>, nine zeros and a ten (mean 1, deviation 3, so the ten lies
  beyond 8.5), and for \<open>hrv\<close> the values \<open>spread 5\<close>: \<open>x\<close> and \<open>- x\<close> twice each and
  twenty-one zeros (mean 0, deviation 2, so the fives lie exactly on the bounds).
\<close>

definition pt :: "string \<Rightarrow> real \<Rightarrow> point" where
  "pt k x = \<lparr>p_kind = Some (U k), p_ts = None, p_value = Some (Fin x), p_unit = None\<rparr>"

definition stats_state :: AgentState where
  "stats_state = fresh_state\<lparr>metrics := [pt ''hr'' 10, pt ''steps'' 5, pt ''hr'' 20,
     \<lparr>p_kind = Some (U ''sleep''), p_ts = None, p_value = None, p_unit = None\<rparr>]\<rparr>"

definition spike :: "real list" where
  "spike = [0, 0, 0, 0, 0, 0, 0, 0, 0, 10]"

definition spread :: "real \<Rightarrow> real list" where
  "spread x = [x, - x, x, - x, 0, 0, 0, 0, 0, 0, 0, 0, 0, 0, 0, 0, 0, 0, 0, 0, 0, 0, 0, 0, 0]"

definition outlier_state :: AgentState where
  "outlier_state = fresh_state\<lparr>metrics :=
     map (pt ''hr'') spike @ map (pt ''hrv'') (spread 5)\<rparr>"

text \<open>
  Two values for \<open>hr\<close>, the first of them an infinity.
\<close>

definition inf_state :: AgentState where
  "inf_state = fresh_state\<lparr>metrics :=
     [\<lparr>p_kind = Some (U ''hr''), p_ts = None, p_value = Some PosInf, p_unit = None\<rparr>,
      pt ''hr'' 1]\<rparr>"

text \<open>
  The twenty-five values of \<open>spread\<close> alone, for \<open>hrv\<close>. Their mean is zero and their
  deviation two fifths of \<open>x\<close>, so \<open>x\<close> is 2.5 deviations away from the mean.
\<close>

definition spread_state :: "real \<Rightarrow> AgentState" where
  "spread_state x = fresh_state\<lparr>metrics := map (pt ''hrv'') (spread x)\<rparr>"

text \<open>A request to the chat endpoints, with the settings and an empty conversation collection.\<close>

definition cfg0 :: settings where
  "cfg0 = \<lparr>max_context_messages = 12,
     default_metric_kinds = [U ''hr'', U ''hrv'', U ''steps'', U ''sleep'']\<rparr>"

definition db0 :: conv_store where
  "db0 = (\<lambda>uid. [])"

definition req0 :: ChatRequest where
  "req0 = \<lparr>r_user_id = U ''u1'', r_message = U ''how is my sleep?'', r_timeframe = None,
     r_metric_kinds = None\<rparr>"

text \<open>
  A conversation collection that cannot be written to, one that takes the user's turn
  and refuses the assistant's, and one that cannot be read.
\<close>

definition env_unwritable :: env where
  "env_unwritable = env0\<lparr>firestore_add_fault := (\<lambda>db uid t. Some (Exn (U ''write failed'')))\<rparr>"

definition env_half_written :: env where
  "env_half_written = env0\<lparr>firestore_add_fault :=
     (\<lambda>db uid t. if t_role t = U ''assistant'' then Some (Exn (U ''second write failed''))
                  else None)\<rparr>"

definition env_unreadable :: env where
  "env_unreadable = env0\<lparr>firestore_read_fault := (\<lambda>db uid. Some (Exn (U ''read failed'')))\<rparr>"

section \<open>Properties\<close>

subsection \<open>Rounding to a double\<close>

lemma pow2_powr: "pow2 e = 2 powr (of_int e)"
  by (simp add: pow2_def powr_real_of_int inverse_eq_divide)

lemma pow2_pos [simp]: "0 < pow2 e"
  by (simp add: pow2_powr)

lemma pow2_add: "pow2 (a + b) = pow2 a * pow2 b"
  by (simp add: pow2_powr powr_add)

lemma pow2_mono: "a \<le> b \<Longrightarrow> pow2 a \<le> pow2 b"
  by (simp add: pow2_powr)

lemma pow2_nat: "0 \<le> e \<Longrightarrow> pow2 e = of_int (2 ^ nat e)"
  by (simp add: pow2_def)

lemma pow2_0 [simp]: "pow2 0 = 1"
  by (simp add: pow2_def)

lemma pow2_int: "0 \<le> k \<Longrightarrow> \<exists>n::int. pow2 k = of_int n"
  by (metis pow2_nat)

lemma round_half_even_int [simp]: "round_half_even (of_int k) = k"
  by (simp add: round_half_even_def)

lemma round_half_even_bounds:
  "\<lfloor>y\<rfloor> \<le> round_half_even y \<and> round_half_even y \<le> \<lfloor>y\<rfloor> + 1"
  by (simp add: round_half_even_def)

lemma floor_log2:
  assumes "pow2 j \<le> \<bar>x\<bar>" and "\<bar>x\<bar> < pow2 (j + 1)"
  shows "\<lfloor>log 2 \<bar>x\<bar>\<rfloor> = j"
proof -
  from assms(1) have "0 < \<bar>x\<bar>"
    using pow2_pos [of j] by linarith
  then show ?thesis
    using assms by (simp add: floor_log_eq_powr_iff pow2_powr)
qed

lemma pow2_53: "pow2 53 = 2 ^ 53"
  by (simp add: pow2_def)

lemma pow2_shift: "pow2 (j + 1) = 2 ^ 53 * pow2 (j - 52)"
proof -
  have "pow2 (53 + (j - 52)) = pow2 53 * pow2 (j - 52)"
    by (rule pow2_add)
  moreover have "53 + (j - 52) = j + 1" by simp
  ultimately show ?thesis
    by (simp only: pow2_53)
qed

text \<open>
  Inside a normal binade the last bit has the exponent \<open>j - 52\<close>, and the result is
  in range.
\<close>

lemma fl_round_binade:
  assumes lo: "pow2 j \<le> \<bar>x\<bar>" and hi: "\<bar>x\<bar> < pow2 (j + 1)"
    and j: "- 1022 \<le> j" "j \<le> 1022"
  shows "fl_round x = Fin (of_int (round_half_even (x / pow2 (j - 52))) * pow2 (j - 52))"
proof -
  from lo have nz: "x \<noteq> 0"
    using pow2_pos [of j] by (auto simp del: pow2_pos)
  have e: "max (\<lfloor>log 2 \<bar>x\<bar>\<rfloor> - 52) (- 1074) = j - 52"
    using floor_log2 [OF lo hi] j by simp
  let ?u = "pow2 (j - 52)"
  let ?y = "x / ?u"
  have "pow2 (j + 1) = 2 ^ 53 * ?u"
    by (rule pow2_shift)
  with hi have "x < 2 ^ 53 * ?u" and "- (2 ^ 53 * ?u) < x"
    by linarith+
  then have "?y < 2 ^ 53" and "- (2 ^ 53) < ?y"
    by (simp_all add: pos_divide_less_eq pos_less_divide_eq)
  then have "- (2 ^ 53) \<le> \<lfloor>?y\<rfloor>" and "\<lfloor>?y\<rfloor> + 1 \<le> 2 ^ 53"
    by (simp_all add: le_floor_iff floor_less_iff)
  with round_half_even_bounds [of ?y]
  have "\<bar>round_half_even ?y\<bar> \<le> 2 ^ 53"
    by linarith
  then have "\<bar>real_of_int (round_half_even ?y)\<bar> \<le> 2 ^ 53"
    by (metis of_int_abs of_int_le_iff of_int_numeral of_int_power)
  then have "\<bar>of_int (round_half_even ?y) * ?u\<bar> \<le> 2 ^ 53 * ?u"
    using pow2_pos [of "j - 52"]
    by (simp add: abs_mult abs_of_pos mult_right_mono del: pow2_pos)
  also have "2 ^ 53 * ?u = pow2 (j + 1)"
    by (rule pow2_shift [symmetric])
  also have "\<dots> \<le> pow2 1023"
    using j by (intro pow2_mono) simp
  also have "\<dots> < 2 ^ 1024"
    by (simp add: pow2_def)
  finally have "\<not> 2 ^ 1024 \<le> \<bar>of_int (round_half_even ?y) * ?u\<bar>"
    by simp
  with nz e show ?thesis
    by (simp add: fl_round_def Let_def)
qed

text \<open>A number of 53 significant bits at most is a double: it is its own rounding.\<close>

lemma fl_round_dyadic:
  assumes x: "x = of_int m * pow2 q" and m: "\<bar>m\<bar> < 2 ^ 53" and q: "- 1074 \<le> q" "q \<le> 971"
  shows "fl_round x = Fin x"
proof (cases "m = 0")
  case True
  with x show ?thesis by (simp add: fl_round_def)
next
  case False
  with x have nz: "x \<noteq> 0"
    using pow2_pos [of q] by (simp del: pow2_pos)
  then have pos: "0 < \<bar>x\<bar>" by simp
  define e where "e = max (\<lfloor>log 2 \<bar>x\<bar>\<rfloor> - 52) (- 1074)"
  have "\<bar>real_of_int m\<bar> < 2 ^ 53"
    using m by (metis of_int_abs of_int_less_iff of_int_numeral of_int_power)
  then have bound: "\<bar>x\<bar> < 2 ^ 53 * pow2 q"
    using pow2_pos [of q] by (simp add: x abs_mult abs_of_pos del: pow2_pos)
  have shift: "2 ^ 53 * pow2 q = pow2 (q + 52 + 1)"
    using pow2_shift [of "q + 52"] by simp
  from bound shift have "\<bar>x\<bar> < pow2 (q + 52 + 1)"
    by linarith
  then have lt: "\<bar>x\<bar> < 2 powr (of_int (q + 52 + 1))"
    by (simp only: pow2_powr)
  have "\<lfloor>log 2 \<bar>x\<bar>\<rfloor> < q + 52 + 1"
  proof -
    from lt pos have "log 2 \<bar>x\<bar> < of_int (q + 52 + 1)"
      by (simp add: log_less_iff del: of_int_add)
    then show ?thesis
      by (simp add: floor_less_iff del: of_int_add)
  qed
  with q have "e \<le> q"
    by (simp add: e_def)
  then obtain n :: int where n: "pow2 (q - e) = of_int n"
    using pow2_int [of "q - e"] by auto
  have "pow2 q = pow2 (q - e) * pow2 e"
    using pow2_add [of "q - e" e] by simp
  then have "x / pow2 e = of_int (m * n)"
    using pow2_pos [of e] by (simp add: x n del: pow2_pos)
  then have r: "of_int (round_half_even (x / pow2 e)) * pow2 e = x"
    using pow2_pos [of e] by (simp add: field_simps del: pow2_pos of_int_mult)
  have "pow2 (q + 52 + 1) \<le> pow2 1024"
    using q by (intro pow2_mono) simp
  also have "pow2 1024 = 2 ^ 1024"
    by (simp add: pow2_def)
  finally have "\<bar>x\<bar> < 2 ^ 1024"
    using bound shift by linarith
  with nz r show ?thesis
    unfolding fl_round_def e_def [symmetric] Let_def by simp
qed

lemma fl_round_int: "\<bar>m\<bar> < 2 ^ 53 \<Longrightarrow> fl_round (of_int m) = Fin (of_int m)"
  using fl_round_dyadic [of "of_int m" m 0] by simp

lemma fl_round_half: "\<bar>m\<bar> < 2 ^ 53 \<Longrightarrow> fl_round (of_int m / 2) = Fin (of_int m / 2)"
  using fl_round_dyadic [of "of_int m / 2" m "- 1"] by (simp add: pow2_def)

lemma fl_round_0 [simp]: "fl_round 0 = Fin 0"
  by (simp add: fl_round_def)

subsection \<open>Context assembly\<close>

lemma length_U [simp]: "length (U s) = length s"
  by (simp add: U_def)

lemma part_of_chunk_2000: "length (part_of chunk_2000) = 2000"
  by (simp add: part_of_def chunk_2000_def por_def or_str_def)

lemma length_join:
  "length (join sep xs) = sum_list (map length xs) + (length xs - 1) * length sep"
  by (induction sep xs rule: join.induct) simp_all

lemma format_pieces_budget:
  "used + sum_list (map length (format_pieces mx used rs)) \<le> max mx used"
proof (induction rs arbitrary: used)
  case Nil
  then show ?case by simp
next
  case (Cons r rs)
  show ?case
  proof (cases "used + length (part_of r) > mx")
    case True
    then show ?thesis by simp
  next
    case False
    have "used + length (part_of r)
        + sum_list (map length (format_pieces mx (used + length (part_of r)) rs))
        \<le> max mx (used + length (part_of r))"
      by (rule Cons)
    with False show ?thesis
      by (simp add: Let_def)
  qed
qed

lemma format_pieces_prefix: "prefix (format_pieces mx used rs) (map part_of rs)"
  by (induction rs arbitrary: used) (auto simp: Let_def)

text \<open>
  C3. The assembled context can be longer than the budget: the loop counts the blocks
  but not the newline that \<open>join\<close> puts between them. Two blocks of 2000 characters pass
  the check (4000 is not over 4000) and are joined into 4001 characters.
\<close>

theorem format_context_over_budget: "length (format_context [chunk_2000, chunk_2000]) = 4001"
  by (simp add: format_context_def format_context_max_def part_of_chunk_2000 length_join Let_def)

lemma format_pieces_stop:
  assumes "length (format_pieces mx used rs) < length rs"
  shows "mx < used + sum_list (map length (format_pieces mx used rs))
            + length (part_of (rs ! length (format_pieces mx used rs)))"
  using assms
proof (induction rs arbitrary: used)
  case Nil
  then show ?case by simp
next
  case (Cons r rs)
  show ?case
  proof (cases "used + length (part_of r) > mx")
    case True
    then show ?thesis by simp
  next
    case False
    with Cons.prems have "length (format_pieces mx (used + length (part_of r)) rs) < length rs"
      by (simp add: Let_def)
    from Cons.IH [OF this] False show ?thesis
      by (simp add: Let_def add.assoc)
  qed
qed

text \<open>
  What does hold of the context, for any budget: the pieces are the first blocks of
  the chunks, in chunk order and whole; their lengths add up to the budget at most; the
  joined string exceeds the budget by the separators at most; and when a chunk is left
  out, the first one left out would have taken the count over the budget.
\<close>

theorem format_context_bound:
  "prefix (format_pieces mx 0 chunks) (map part_of chunks)
   \<and> sum_list (map length (format_pieces mx 0 chunks)) \<le> mx
   \<and> length (format_context_max chunks mx) \<le> mx + (length (format_pieces mx 0 chunks) - 1)
   \<and> (length (format_pieces mx 0 chunks) < length chunks \<longrightarrow>
        mx < sum_list (map length (format_pieces mx 0 chunks))
               + length (part_of (chunks ! length (format_pieces mx 0 chunks))))"
proof (intro conjI impI)
  show "prefix (format_pieces mx 0 chunks) (map part_of chunks)"
    by (rule format_pieces_prefix)
  show le: "sum_list (map length (format_pieces mx 0 chunks)) \<le> mx"
    using format_pieces_budget [of 0 mx chunks] by simp
  show "length (format_context_max chunks mx) \<le> mx + (length (format_pieces mx 0 chunks) - 1)"
    using le by (simp add: format_context_max_def length_join)
  show "mx < sum_list (map length (format_pieces mx 0 chunks))
               + length (part_of (chunks ! length (format_pieces mx 0 chunks)))"
    if "length (format_pieces mx 0 chunks) < length chunks"
    using format_pieces_stop [OF that] by simp
qed

lemma pieces_three:
  "format_pieces 4000 0 [chunk_2000, chunk_2000, chunk_2000] = [part_of chunk_2000, part_of chunk_2000]"
proof -
  have "part_of chunk_2000 \<noteq> []"
    using part_of_chunk_2000 by auto
  then show ?thesis
    by (simp add: part_of_chunk_2000 Let_def)
qed

theorem format_context_bound_witness:
  "format_pieces 4000 0 [chunk_2000, chunk_2000, chunk_2000]
     = [part_of chunk_2000, part_of chunk_2000]
   \<and> 4000 < sum_list (map length (format_pieces 4000 0 [chunk_2000, chunk_2000, chunk_2000]))
               + length (part_of chunk_2000)
   \<and> length (format_context_max [chunk_2000, chunk_2000, chunk_2000] 4000) \<le> 4001"
proof -
  have short: "length (format_pieces 4000 0 [chunk_2000, chunk_2000, chunk_2000])
      < length [chunk_2000, chunk_2000, chunk_2000]"
    unfolding pieces_three by simp
  from format_context_bound [of 4000 "[chunk_2000, chunk_2000, chunk_2000]"] short
  have "4000 < sum_list (map length (format_pieces 4000 0 [chunk_2000, chunk_2000, chunk_2000]))
               + length (part_of ([chunk_2000, chunk_2000, chunk_2000]
                   ! length (format_pieces 4000 0 [chunk_2000, chunk_2000, chunk_2000])))"
    and "length (format_context_max [chunk_2000, chunk_2000, chunk_2000] 4000)
        \<le> 4000 + (length (format_pieces 4000 0 [chunk_2000, chunk_2000, chunk_2000]) - 1)"
    by blast+
  then show ?thesis
    unfolding pieces_three by simp
qed

subsection \<open>The first stage and the merge policy\<close>

lemma merge_Nil [simp]: "merge s [] = s"
  by (simp add: merge_def)

lemma merge_Cons [simp]: "merge s (f # u) = merge (merge_field s f) u"
  by (simp add: merge_def)

lemma after_parse_user:
  "after_node node_parse_user s =
     Inr (s\<lparr>question := last_human (rev (messages s)),
            metric_kinds := metric_kinds s @ metric_kinds s\<rparr>)"
  by (simp add: after_node_def node_parse_user_def ret_def)

text \<open>
  C1. The first stage returns an empty list for each accumulator, and the merge policy
  concatenates it to what the field holds: on a state object that still holds the lists
  of an earlier run, all five fields come out of the first stage as they went in.
\<close>

theorem first_stage_keeps_leftovers:
  "case after_node node_parse_user stale_state of
     Inl x \<Rightarrow> False
   | Inr s \<Rightarrow> metrics s = [stale_point] \<and> anomalies s = [U ''hr: 1 outlier(s)'']
        \<and> relevant_chunks s = [stale_chunk] \<and> citations s = [stale_citation]
        \<and> safety_warnings s = [U ''old warning'']"
  by (simp add: after_parse_user stale_state_def)

text \<open>
  For every state, the first stage leaves the five accumulators as they were, sets
  the question, and appends the metric kinds to themselves.
\<close>

theorem first_stage_accumulators:
  "\<exists>s'. after_node node_parse_user s = Inr s'
     \<and> metrics s' = metrics s \<and> anomalies s' = anomalies s
     \<and> relevant_chunks s' = relevant_chunks s \<and> citations s' = citations s
     \<and> safety_warnings s' = safety_warnings s
     \<and> metric_kinds s' = metric_kinds s @ metric_kinds s
     \<and> question s' = last_human (rev (messages s))"
  by (simp add: after_parse_user)

subsection \<open>The Guidance Retriever\<close>

lemma strip_blank: "list_all is_space q \<Longrightarrow> strip q = []"
  by (auto simp: strip_def list_all_iff dest: set_dropWhileD)

lemma strip_eq_Nil_iff: "strip q = [] \<longleftrightarrow> list_all is_space q"
proof
  assume "strip q = []"
  then have all: "\<forall>x \<in> set (dropWhile is_space q). is_space x"
    by (simp add: strip_def)
  have "dropWhile is_space q = []"
  proof (rule ccontr)
    assume ne: "dropWhile is_space q \<noteq> []"
    then have "\<not> is_space (hd (dropWhile is_space q))"
      by (rule hd_dropWhile)
    moreover from ne have "hd (dropWhile is_space q) \<in> set (dropWhile is_space q)"
      by simp
    ultimately show False using all by blast
  qed
  then show "list_all is_space q"
    by (simp add: list_all_iff)
next
  assume "list_all is_space q"
  then show "strip q = []" by (rule strip_blank)
qed

text \<open>
  C7. With no question, an empty one, or one of white space only, the retriever returns
  two empty lists and its list of calls is empty: no client is built, nothing is embedded,
  nothing is searched.
\<close>

theorem retrieve_short_circuit:
  assumes "question s = None \<or> (\<exists>q. question s = Some q \<and> list_all is_space q)"
  shows "node_retrieve e s = ([], Inr [RelevantChunks [], Citations []])"
proof -
  from assms have "strip (or_str (question s) []) = []"
    by (auto simp: or_str_def strip_blank)
  then show ?thesis
    by (simp add: node_retrieve_def ret_def)
qed

theorem retrieve_short_circuit_witness:
  "node_retrieve env_down blank_state = ([], Inr [RelevantChunks [], Citations []])"
proof -
  have "question blank_state = None
      \<or> (\<exists>q. question blank_state = Some q \<and> list_all is_space q)"
    by (simp add: blank_state_def is_space_def)
  then show ?thesis
    by (rule retrieve_short_circuit)
qed

lemma node_retrieve_shape:
  "node_retrieve e s = (cs, Inr u) \<Longrightarrow>
     \<exists>hits. u = [RelevantChunks (map hit_chunk hits), Citations (map hit_cite hits)]"
  by (auto simp: node_retrieve_def ret_def call_def Let_def split: if_splits sum.splits prod.splits)

text \<open>
  C6. After the retriever's update is merged, \<open>citations\<close> and \<open>relevant_chunks\<close> have
  the same length and agree index by index on id, source and score, provided they did
  before the stage (both are empty in the state the endpoints build).
\<close>

theorem retrieve_aligned:
  assumes run: "after_node (node_retrieve e) s = Inr s'"
    and len: "length (citations s) = length (relevant_chunks s)"
    and al: "\<forall>i < length (citations s).
        cite_id (citations s ! i) = m_id (c_metadata (relevant_chunks s ! i))
      \<and> cite_source (citations s ! i) = m_source (c_metadata (relevant_chunks s ! i))
      \<and> cite_score (citations s ! i) = c_score (relevant_chunks s ! i)"
  shows "length (citations s') = length (relevant_chunks s')
    \<and> (\<forall>i < length (citations s').
        cite_id (citations s' ! i) = m_id (c_metadata (relevant_chunks s' ! i))
      \<and> cite_source (citations s' ! i) = m_source (c_metadata (relevant_chunks s' ! i))
      \<and> cite_score (citations s' ! i) = c_score (relevant_chunks s' ! i))"
proof -
  from run obtain cs u where u: "node_retrieve e s = (cs, Inr u)" and s': "s' = merge s u"
    by (auto simp: after_node_def split: prod.splits sum.splits)
  from node_retrieve_shape [OF u] obtain hits
    where "u = [RelevantChunks (map hit_chunk hits), Citations (map hit_cite hits)]" ..
  with s' have c: "citations s' = citations s @ map hit_cite hits"
    and r: "relevant_chunks s' = relevant_chunks s @ map hit_chunk hits"
    by simp_all
  show ?thesis
    using len al by (auto simp: c r nth_append hit_cite_def hit_chunk_def)
qed

theorem retrieve_aligned_witness:
  "case after_node (node_retrieve env_hits) asked_state of
     Inl x \<Rightarrow> False
   | Inr s' \<Rightarrow> length (citations s') = 2 \<and> length (relevant_chunks s') = 2
       \<and> cite_id (citations s' ! 0) = m_id (c_metadata (relevant_chunks s' ! 0))
       \<and> cite_source (citations s' ! 0) = m_source (c_metadata (relevant_chunks s' ! 0))
       \<and> cite_score (citations s' ! 0) = c_score (relevant_chunks s' ! 0)
       \<and> cite_source (citations s' ! 1) = m_source (c_metadata (relevant_chunks s' ! 1))"
proof -
  obtain s' where run: "after_node (node_retrieve env_hits) asked_state = Inr s'"
    and two: "length (citations s') = 2"
    by (simp add: after_node_def node_retrieve_def asked_state_def fresh_state_def env_hits_def
        env0_def call_def ret_def or_str_def strip_def is_space_def U_def enriched_query_def
        enrich_for_def)
  have len: "length (citations asked_state) = length (relevant_chunks asked_state)"
    by (simp add: asked_state_def fresh_state_def)
  have al: "\<forall>i < length (citations asked_state).
        cite_id (citations asked_state ! i) = m_id (c_metadata (relevant_chunks asked_state ! i))
      \<and> cite_source (citations asked_state ! i)
          = m_source (c_metadata (relevant_chunks asked_state ! i))
      \<and> cite_score (citations asked_state ! i) = c_score (relevant_chunks asked_state ! i)"
    by (simp add: asked_state_def fresh_state_def)
  from retrieve_aligned [OF run len al] two show ?thesis
    by (simp add: run)
qed

subsection \<open>The Safety Screener\<close>

lemma contains_sublist: "contains k q = sublist k q"
  by (induction q) (simp_all add: sublist_Cons_right)

text \<open>
  Lower-casing keeps an occurrence of a phrase made of ASCII characters other than capital
  letters, whatever stands around it.
\<close>

lemma lower_keeps_plain:
  assumes "list_all (\<lambda>c. c < 128 \<and> \<not> (65 \<le> c \<and> c \<le> 90)) k"
  shows "\<exists>x y. lower tbl (a @ k @ b) = x @ k @ y"
proof -
  let ?s = "a @ k @ b"
  let ?f = "\<lambda>i. if ?s ! i < 128 then [ascii_lower (?s ! i)] else tbl ?s i"
  have split: "[0..<length ?s] = [0..<length a] @ [length a..<length a + length k]
      @ [length a + length k..<length ?s]"
  proof -
    have "[0..<length a + length k + length b]
        = [0..<length a + length k] @ [length a + length k..<length a + length k + length b]"
      by (rule upt_add_eq_append) simp
    moreover have "[0..<length a + length k] = [0..<length a] @ [length a..<length a + length k]"
      by (rule upt_add_eq_append) simp
    ultimately show ?thesis by (simp add: add.assoc)
  qed
  have mid: "concat (map ?f [length a..<length a + length k]) = k"
  proof -
    have "map ?f [length a..<length a + length k] = map (\<lambda>c. [c]) k"
    proof (rule nth_equalityI)
      show "length (map ?f [length a..<length a + length k]) = length (map (\<lambda>c. [c]) k)"
        by simp
    next
      fix i assume "i < length (map ?f [length a..<length a + length k])"
      then have i: "i < length k" by simp
      then have "?s ! (length a + i) = k ! i"
        by (simp add: nth_append)
      moreover from assms i have "k ! i < 128 \<and> \<not> (65 \<le> k ! i \<and> k ! i \<le> 90)"
        by (simp add: list_all_length)
      ultimately show "map ?f [length a..<length a + length k] ! i = map (\<lambda>c. [c]) k ! i"
        using i by (simp add: ascii_lower_def)
    qed
    then show ?thesis by simp
  qed
  have "lower tbl ?s = concat (map ?f [0..<length a]) @ k
      @ concat (map ?f [length a + length k..<length ?s])"
    unfolding lower_def by (subst split) (simp only: map_append concat_append mid)
  then show ?thesis by blast
qed

lemma lower_sublist:
  assumes "list_all (\<lambda>c. c < 128 \<and> \<not> (65 \<le> c \<and> c \<le> 90)) k" and "sublist k q"
  shows "sublist k (lower tbl q)"
proof -
  from assms(2) obtain a b where "q = a @ k @ b"
    by (auto simp: sublist_def)
  with lower_keeps_plain [OF assms(1), of tbl a b] show ?thesis
    by (auto simp: sublist_def)
qed

lemma warnings_differ: "urgent_warning \<noteq> hr_warning"
  by (simp add: urgent_warning_def hr_warning_def U_def)

lemma unconscious_sign: "U ''unconscious'' \<in> set EMERGENCY_SIGNS"
  by (simp add: EMERGENCY_SIGNS_def)

lemma unconscious_plain:
  "list_all (\<lambda>c. c < 128 \<and> \<not> (65 \<le> c \<and> c \<le> 90)) (U ''unconscious'')"
  by (simp add: U_def)

lemma urgent_iff:
  "urgent_warning \<in> set (warnings e s) \<longleftrightarrow>
     (\<exists>k \<in> set EMERGENCY_SIGNS. sublist k (lower (lower_tbl e) (or_str (question s) [])))"
  using warnings_differ by (simp add: warnings_def list_ex_iff contains_sublist)

lemma hr_iff:
  "hr_warning \<in> set (warnings e s) \<longleftrightarrow> (\<exists>a \<in> set (anomalies s). prefix (U ''hr:'') a)"
  using warnings_differ by (simp add: warnings_def list_ex_iff)

lemma warnings_shape:
  "set (warnings e s) \<subseteq> {urgent_warning, hr_warning} \<and> distinct (warnings e s)
     \<and> length (warnings e s) \<le> 2"
  using warnings_differ by (simp add: warnings_def)

lemma unconscious_urgent:
  assumes "\<exists>a b. question s = Some (a @ U ''unconscious'' @ b)"
  shows "urgent_warning \<in> set (warnings e s)"
proof -
  from assms obtain a b where q: "question s = Some (a @ U ''unconscious'' @ b)" by blast
  have "U ''unconscious'' \<noteq> []" by (simp add: U_def)
  with q have "or_str (question s) [] = a @ U ''unconscious'' @ b"
    by (simp add: or_str_def)
  then have "sublist (U ''unconscious'') (or_str (question s) [])"
    unfolding sublist_def by blast
  then have "sublist (U ''unconscious'') (lower (lower_tbl e) (or_str (question s) []))"
    by (rule lower_sublist [OF unconscious_plain])
  with unconscious_sign show ?thesis
    unfolding urgent_iff by blast
qed

lemma distinct_singleton:
  assumes "distinct ws" and "set ws \<subseteq> {a, b}" and "a \<in> set ws" and "b \<notin> set ws"
  shows "ws = [a]"
proof (cases ws)
  case Nil
  with assms(3) show ?thesis by simp
next
  case (Cons x xs)
  with assms have x: "x = a" and xs: "set xs \<subseteq> {a, b}" "a \<notin> set xs" "b \<notin> set xs"
    by auto
  have "xs = []"
  proof (cases xs)
    case Nil
    then show ?thesis .
  next
    case (Cons y ys)
    with xs have "y = a \<or> y = b" and "y \<noteq> a" and "y \<noteq> b" by auto
    then show ?thesis by blast
  qed
  with Cons x show ?thesis by simp
qed

text \<open>
  C9. The screener makes no call and returns one list of warnings. The urgent-care
  warning is in it exactly when one of the emergency phrases occurs in the lower-cased
  question, so it is there for a question that contains \<open>unconscious\<close>. The
  heart-rate warning is in it exactly when an anomaly starts with \<open>hr:\<close>, so it is
  absent when there are no anomalies. Each warning occurs at most once: the list has
  zero, one or two entries.
\<close>

theorem safety_screener:
  "\<exists>ws. node_safety e s = ([], Inr [SafetyWarnings ws])
     \<and> (urgent_warning \<in> set ws \<longleftrightarrow>
          (\<exists>k \<in> set EMERGENCY_SIGNS. sublist k (lower (lower_tbl e) (or_str (question s) []))))
     \<and> (hr_warning \<in> set ws \<longleftrightarrow> (\<exists>a \<in> set (anomalies s). prefix (U ''hr:'') a))
     \<and> ((\<exists>a b. question s = Some (a @ U ''unconscious'' @ b)) \<longrightarrow> urgent_warning \<in> set ws)
     \<and> (anomalies s = [] \<longrightarrow> hr_warning \<notin> set ws)
     \<and> set ws \<subseteq> {urgent_warning, hr_warning} \<and> distinct ws \<and> length ws \<le> 2"
proof (intro exI conjI impI)
  show "node_safety e s = ([], Inr [SafetyWarnings (warnings e s)])"
    by (simp add: node_safety_def ret_def)
  show "urgent_warning \<in> set (warnings e s) \<longleftrightarrow>
     (\<exists>k \<in> set EMERGENCY_SIGNS. sublist k (lower (lower_tbl e) (or_str (question s) [])))"
    by (rule urgent_iff)
  show "hr_warning \<in> set (warnings e s) \<longleftrightarrow> (\<exists>a \<in> set (anomalies s). prefix (U ''hr:'') a)"
    by (rule hr_iff)
  show "urgent_warning \<in> set (warnings e s)"
    if "\<exists>a b. question s = Some (a @ U ''unconscious'' @ b)"
    using that by (rule unconscious_urgent)
  show "hr_warning \<notin> set (warnings e s)" if "anomalies s = []"
    using that by (simp add: hr_iff)
  show "set (warnings e s) \<subseteq> {urgent_warning, hr_warning}"
    and "distinct (warnings e s)" and "length (warnings e s) \<le> 2"
    using warnings_shape [of e s] by blast+
qed

theorem safety_screener_witness:
  "node_safety env0 unconscious_state = ([], Inr [SafetyWarnings [urgent_warning]])"
proof -
  obtain ws where run: "node_safety env0 unconscious_state = ([], Inr [SafetyWarnings ws])"
    and q: "(\<exists>a b. question unconscious_state = Some (a @ U ''unconscious'' @ b))
        \<longrightarrow> urgent_warning \<in> set ws"
    and an: "anomalies unconscious_state = [] \<longrightarrow> hr_warning \<notin> set ws"
    and sub: "set ws \<subseteq> {urgent_warning, hr_warning}" and dist: "distinct ws"
    using safety_screener [of env0 unconscious_state] by blast
  have "question unconscious_state = Some (U ''he is '' @ U ''unconscious'' @ U '' now'')"
    by (simp add: unconscious_state_def)
  then have "\<exists>a b. question unconscious_state = Some (a @ U ''unconscious'' @ b)"
    by blast
  with q have urgent: "urgent_warning \<in> set ws" by blast
  have "anomalies unconscious_state = []"
    by (simp add: unconscious_state_def fresh_state_def)
  with an have "hr_warning \<notin> set ws" by blast
  with dist sub urgent have "ws = [urgent_warning]"
    by (rule distinct_singleton)
  with run show ?thesis by simp
qed

text \<open>
  No warning and two warnings occur as well: for a state without a question and
  without anomalies, and for a question in capitals with a heart-rate anomaly.
\<close>

lemma safety_no_warning: "node_safety env0 fresh_state = ([], Inr [SafetyWarnings []])"
  by (simp add: node_safety_def warnings_def fresh_state_def or_str_def lower_def
      EMERGENCY_SIGNS_def U_def ret_def)

lemma safety_two_warnings:
  "node_safety env0 (fresh_state\<lparr>question := Some (U ''Is this a STROKE?''),
     anomalies := [U ''hr: 2 outlier(s)'']\<rparr>)
   = ([], Inr [SafetyWarnings [urgent_warning, hr_warning]])"
  by (simp add: node_safety_def warnings_def fresh_state_def or_str_def lower_def
      EMERGENCY_SIGNS_def U_def ret_def ascii_lower_def env0_def)

subsection \<open>The Metrics Fetcher\<close>

lemma get_user_metrics_ok:
  assumes "parse_iso_utc e a = Inr t0" and "parse_iso_utc e b = Inr t1"
    and "firestore_stream e uid t0 t1 (kind_filter kinds) = Inr docs"
  shows "get_user_metrics e uid a b kinds
    = ([FirestoreStream uid t0 t1 (kind_filter kinds)], Inr (List.map_filter (doc_point e kinds) docs))"
  using assms by (simp add: get_user_metrics_def call_def ret_def)

lemma doc_point_value:
  "doc_point e kinds d = Some p \<Longrightarrow> py_float (float_text e) (d_value d) = Some (mp_value p)"
  by (auto simp: doc_point_def split: if_splits option.splits)

lemma doc_point_rejected:
  "py_float (float_text e) (d_value d) = None \<Longrightarrow> doc_point e kinds d = None"
  by (simp add: doc_point_def)

lemma map_filter_values:
  "map (\<lambda>p. Some (mp_value p)) (List.map_filter (doc_point e kinds) docs)
   = map (\<lambda>d. py_float (float_text e) (d_value d)) (filter (\<lambda>d. doc_point e kinds d \<noteq> None) docs)"
  by (induction docs) (auto simp: List.map_filter_simps dest: doc_point_value split: option.splits)

text \<open>
  C2, as the code has it. When the user and the time frame are there, the dates parse and
  the query returns, the stage returns, whatever the documents hold: it makes the one
  query, every point it adds has a float for its value, the values are what \<open>float\<close>
  gave for the documents that were kept, and a document whose value \<open>float\<close> rejects is
  not kept. Nothing asks whether a float is finite.
\<close>

theorem pull_metrics_floats:
  assumes uid: "user_id s = Some uid" "uid \<noteq> []"
    and tf: "timeframe s = Some tf" "tf_start tf = Some a" "a \<noteq> []" "tf_end tf = Some b" "b \<noteq> []"
    and parse: "parse_iso_utc e a = Inr t0" "parse_iso_utc e b = Inr t1"
    and docs: "firestore_stream e uid t0 t1 (kind_filter (metric_kinds s)) = Inr docs"
  shows "\<exists>ps. node_pull_metrics e s
        = ([FirestoreStream uid t0 t1 (kind_filter (metric_kinds s))], Inr [Metrics ps])
      \<and> (\<forall>p \<in> set ps. \<exists>f. p_value p = Some f)
      \<and> map p_value ps = map (\<lambda>d. py_float (float_text e) (d_value d))
            (filter (\<lambda>d. doc_point e (metric_kinds s) d \<noteq> None) docs)
      \<and> (\<forall>d \<in> set docs. py_float (float_text e) (d_value d) = None
            \<longrightarrow> doc_point e (metric_kinds s) d = None)"
proof -
  let ?data = "List.map_filter (doc_point e (metric_kinds s)) docs"
  let ?ps = "map (\<lambda>p. \<lparr>p_kind = mp_kind p, p_ts = Some (mp_ts p),
      p_value = safe_float e (VFloat (mp_value p)), p_unit = mp_unit p\<rparr>) ?data"
  have run: "node_pull_metrics e s
      = ([FirestoreStream uid t0 t1 (kind_filter (metric_kinds s))], Inr [Metrics ?ps])"
    using uid tf get_user_metrics_ok [OF parse docs]
    by (simp add: node_pull_metrics_def falsy_def or_str_def Let_def)
  have vals: "map p_value ?ps = map (\<lambda>p. Some (mp_value p)) ?data"
    by (simp add: safe_float_def comp_def)
  have "\<forall>p \<in> set ?ps. \<exists>f. p_value p = Some f"
    by (auto simp: safe_float_def)
  with run vals map_filter_values [of e "metric_kinds s" docs] doc_point_rejected [of e _ "metric_kinds s"]
  show ?thesis
    by (intro exI [of _ ?ps]) (simp only: simp_thms, blast)
qed

theorem pull_metrics_floats_witness:
  "\<exists>ps. node_pull_metrics env_mixed fresh_state
        = ([FirestoreStream (U ''u1'') 0 0 (Some [U ''hr''])], Inr [Metrics ps])
      \<and> map p_value ps = [Some (Fin 61), Some PosInf]"
proof -
  have tf: "timeframe fresh_state
      = Some \<lparr>tf_start = Some (U ''2025-01-01''), tf_end = Some (U ''2025-01-08'')\<rparr>"
    by (simp add: fresh_state_def)
  have uid: "user_id fresh_state = Some (U ''u1'')" "U ''u1'' \<noteq> []"
    by (simp_all add: fresh_state_def U_def)
  have ne: "U ''2025-01-01'' \<noteq> []" "U ''2025-01-08'' \<noteq> []"
    by (simp_all add: U_def)
  have kf: "kind_filter (metric_kinds fresh_state) = Some [U ''hr'']"
    by (simp add: kind_filter_def fromkeys_def fresh_state_def U_def)
  have parse: "parse_iso_utc env_mixed (U ''2025-01-01'') = Inr 0"
    "parse_iso_utc env_mixed (U ''2025-01-08'') = Inr 0"
    using ne by (simp_all add: parse_iso_utc_def env_mixed_def env0_def)
  have docs: "firestore_stream env_mixed (U ''u1'') 0 0 (kind_filter (metric_kinds fresh_state))
      = Inr [doc_ok, doc_text, doc_inf]"
    by (simp add: env_mixed_def)
  from pull_metrics_floats [OF uid tf _ ne(1) _ ne(2) parse docs] obtain ps
    where run: "node_pull_metrics env_mixed fresh_state
        = ([FirestoreStream (U ''u1'') 0 0 (kind_filter (metric_kinds fresh_state))],
           Inr [Metrics ps])"
      and vals: "map p_value ps = map (\<lambda>d. py_float (float_text env_mixed) (d_value d))
            (filter (\<lambda>d. doc_point env_mixed (metric_kinds fresh_state) d \<noteq> None)
               [doc_ok, doc_text, doc_inf])"
    by auto
  have "map p_value ps = [Some (Fin 61), Some PosInf]"
    unfolding vals
    by (simp add: doc_point_def doc_ok_def doc_text_def doc_inf_def env_mixed_def env0_def
        fresh_state_def)
  with run kf show ?thesis by simp
qed

text \<open>
  C2, as it is stated, fails: the store holds the double \<open>Infinity\<close> for a point,
  \<open>float\<close> accepts it, and after the stage the value in \<open>metrics\<close> is not finite.
\<close>

theorem pull_metrics_keeps_infinity:
  "case after_node (node_pull_metrics env_inf) fresh_state of
     Inl x \<Rightarrow> False
   | Inr s \<Rightarrow> map p_value (metrics s) = [Some PosInf] \<and> \<not> isfinite PosInf"
  by (simp add: after_node_def node_pull_metrics_def fresh_state_def env_inf_def env0_def
      falsy_def or_str_def get_user_metrics_def parse_iso_utc_def call_def ret_def
      List.map_filter_simps doc_point_def doc_inf_def safe_float_def U_def kind_filter_def fromkeys_def)

text \<open>
  Scenario C of the specification. Without a user or without both ends of the time frame, the fetcher makes no call
  and adds nothing to \<open>metrics\<close>.
\<close>

theorem pull_metrics_short_circuit:
  assumes "falsy (user_id s) \<or> timeframe s = None
      \<or> (\<exists>tf. timeframe s = Some tf \<and> (falsy (tf_start tf) \<or> falsy (tf_end tf)))"
  shows "node_pull_metrics e s = ([], Inr [Metrics []])"
  using assms by (auto simp: node_pull_metrics_def ret_def falsy_def Let_def)

theorem pull_metrics_short_circuit_witness:
  "node_pull_metrics env_mixed (fresh_state\<lparr>user_id := None, timeframe := None\<rparr>)
   = ([], Inr [Metrics []])"
proof -
  have "falsy (user_id (fresh_state\<lparr>user_id := None, timeframe := None\<rparr>))
      \<or> timeframe (fresh_state\<lparr>user_id := None, timeframe := None\<rparr>) = None
      \<or> (\<exists>tf. timeframe (fresh_state\<lparr>user_id := None, timeframe := None\<rparr>) = Some tf
            \<and> (falsy (tf_start tf) \<or> falsy (tf_end tf)))"
    by (simp add: falsy_def)
  then show ?thesis
    by (rule pull_metrics_short_circuit)
qed

subsection \<open>The Metrics Analyzer\<close>

lemma safe_float_as_val [simp]: "safe_float e (as_val v) = v"
  by (cases v) (simp_all add: safe_float_def as_val_def)

lemma map_of_setdefault_append:
  "map_of (setdefault_append acc k v) k'
   = (if k' = k then Some ((case map_of acc k of None \<Rightarrow> [] | Some vs \<Rightarrow> vs) @ [v])
      else map_of acc k')"
  by (induction acc k v rule: setdefault_append.induct) auto

lemma keys_setdefault_append:
  "fst ` set (setdefault_append acc k v) = insert k (fst ` set acc)"
  by (induction acc k v rule: setdefault_append.induct) auto

lemma distinct_setdefault_append:
  "distinct (map fst acc) \<Longrightarrow> distinct (map fst (setdefault_append acc k v))"
  by (induction acc k v rule: setdefault_append.induct) (auto simp: keys_setdefault_append)

lemma distinct_group_points:
  "distinct (map fst acc) \<Longrightarrow> distinct (map fst (group_points e acc pts))"
  by (induction pts arbitrary: acc) (auto simp: distinct_setdefault_append split: option.splits)

lemma group_values_Cons:
  "group_values k (p # ps)
   = (if k \<noteq> [] \<and> p_kind p = Some k
      then (case p_value p of None \<Rightarrow> group_values k ps | Some v \<Rightarrow> v # group_values k ps)
      else group_values k ps)"
  by (simp add: group_values_def List.map_filter_simps split: option.splits)

lemma group_values_Nil [simp]: "group_values k [] = []"
  by (simp add: group_values_def List.map_filter_simps)

lemma map_of_group_points_empty_kind:
  "map_of (group_points e acc pts) [] = map_of acc []"
  by (induction pts arbitrary: acc) (auto simp: map_of_setdefault_append split: option.splits)

lemma map_of_group_points:
  "map_of (group_points e acc pts) k
   = (if group_values k pts = [] then map_of acc k
      else Some ((case map_of acc k of None \<Rightarrow> [] | Some vs \<Rightarrow> vs) @ group_values k pts))"
proof (cases "k = []")
  case True
  then show ?thesis
    by (simp add: map_of_group_points_empty_kind group_values_def)
next
  case False
  show ?thesis
  proof (induction pts arbitrary: acc)
    case Nil
    then show ?case by simp
  next
    case (Cons p ps)
    show ?case
      using False
      by (cases "p_value p"; cases "p_kind p")
        (auto simp: Cons group_values_Cons map_of_setdefault_append split: option.splits)
  qed
qed

lemma groups_entries:
  assumes "(k, vs) \<in> set (group_points e [] pts)"
  shows "vs = group_values k pts \<and> group_values k pts \<noteq> []"
proof -
  have "distinct (map fst (group_points e [] pts))"
    by (rule distinct_group_points) simp
  with assms have "map_of (group_points e [] pts) k = Some vs"
    by simp
  then show ?thesis
    by (simp add: map_of_group_points split: if_splits)
qed

lemma groups_keys:
  "k \<in> fst ` set (group_points e [] pts) \<longleftrightarrow> group_values k pts \<noteq> []"
proof -
  have "k \<in> fst ` set (group_points e [] pts) \<longleftrightarrow> map_of (group_points e [] pts) k \<noteq> None"
    by (simp add: map_of_eq_None_iff)
  then show ?thesis
    by (simp add: map_of_group_points)
qed

text \<open>
  \<open>_mean_sd\<close> on a group: it raises when the group has two values or more and one of
  them is not finite, and returns the group's entry otherwise.
\<close>

lemma group_stat_n [simp]: "st_n (group_stat vals) = length vals"
  by (simp add: group_stat_def Let_def)

lemma mean_sd_group:
  assumes "vals \<noteq> []"
  shows "mean_sd vals =
     (if 2 \<le> length vals \<and> \<not> list_all isfinite vals then Inl no_numerator
      else Inr (st_mean (group_stat vals), st_stdev (group_stat vals)))"
proof (cases vals)
  case Nil
  with assms show ?thesis by simp
next
  case (Cons v vs)
  show ?thesis
  proof (cases vs)
    case Nil
    with Cons show ?thesis by (simp add: group_stat_def)
  next
    case (Cons w ws)
    with \<open>vals = v # vs\<close> show ?thesis
      by (simp add: mean_def pstdev_def group_stat_def Let_def)
  qed
qed

lemma pos_truthy: "flt (Fin 0) d \<Longrightarrow> truthy d"
  by (cases d) auto

lemma flags_of_spec: "flags_of k mu sd vals = spec_flag k mu sd vals"
proof (cases mu)
  case None
  then show ?thesis by (simp add: flags_of_def spec_flag_def)
next
  case (Some m)
  show ?thesis
  proof (cases sd)
    case None
    with Some show ?thesis by (simp add: flags_of_def spec_flag_def)
  next
    case (Some d)
    with \<open>mu = Some m\<close> show ?thesis
      using pos_truthy [of d]
      by (auto simp: flags_of_def spec_flag_def outliers_def Let_def filter_empty_conv)
  qed
qed

lemma analyze_groups_cases:
  assumes "\<forall>(k, vals) \<in> set groups. vals \<noteq> []"
  shows "analyze_groups groups =
     (if \<forall>(k, vals) \<in> set groups. 2 \<le> length vals \<longrightarrow> list_all isfinite vals
      then Inr (map (\<lambda>(k, vals). (k, group_stat vals)) groups,
                concat (map (\<lambda>(k, vals). spec_flag k (st_mean (group_stat vals))
                   (st_stdev (group_stat vals)) vals) groups))
      else Inl no_numerator)"
  using assms
proof (induction groups)
  case Nil
  then show ?case by simp
next
  case (Cons g groups)
  obtain k vals where g: "g = (k, vals)" by (cases g)
  with Cons.prems have ne: "vals \<noteq> []" and rest: "\<forall>(k, vals) \<in> set groups. vals \<noteq> []"
    by auto
  have entry: "\<lparr>st_mean = st_mean (group_stat vals), st_stdev = st_stdev (group_stat vals),
      st_n = length vals\<rparr> = group_stat vals"
    by (simp add: group_stat_def Let_def)
  show ?case
    unfolding g
    by (simp add: mean_sd_group [OF ne] Cons.IH [OF rest] flags_of_spec entry)
qed

text \<open>
  The whole stage: it raises when some group of two values or more holds a value that
  is not finite, and otherwise returns the entries and the flags of the groups, in the
  order in which the kinds first occur.
\<close>

lemma node_analyze_cases:
  "node_analyze e s =
     (if \<forall>k. 2 \<le> length (group_values k (metrics s)) \<longrightarrow> list_all isfinite (group_values k (metrics s))
      then ([], Inr [Stats (map (\<lambda>(k, vals). (k, group_stat vals)) (group_points e [] (metrics s))),
                     Anomalies (concat (map (\<lambda>(k, vals). spec_flag k (st_mean (group_stat vals))
                        (st_stdev (group_stat vals)) vals) (group_points e [] (metrics s))))])
      else ([], Inl no_numerator))"
proof -
  let ?g = "group_points e [] (metrics s)"
  have ne: "\<forall>(k, vals) \<in> set ?g. vals \<noteq> []"
    using groups_entries [of _ _ e "metrics s"] by fastforce
  have "(\<forall>(k, vals) \<in> set ?g. 2 \<le> length vals \<longrightarrow> list_all isfinite vals)
      \<longleftrightarrow> (\<forall>k. 2 \<le> length (group_values k (metrics s))
            \<longrightarrow> list_all isfinite (group_values k (metrics s)))"
  proof
    assume all: "\<forall>(k, vals) \<in> set ?g. 2 \<le> length vals \<longrightarrow> list_all isfinite vals"
    show "\<forall>k. 2 \<le> length (group_values k (metrics s))
        \<longrightarrow> list_all isfinite (group_values k (metrics s))"
    proof (intro allI impI)
      fix k assume two: "2 \<le> length (group_values k (metrics s))"
      then have "group_values k (metrics s) \<noteq> []" by auto
      then have "k \<in> fst ` set ?g"
        by (simp add: groups_keys)
      then obtain vals where mem: "(k, vals) \<in> set ?g" by auto
      with groups_entries [OF mem] all two show "list_all isfinite (group_values k (metrics s))"
        by auto
    qed
  next
    assume all: "\<forall>k. 2 \<le> length (group_values k (metrics s))
        \<longrightarrow> list_all isfinite (group_values k (metrics s))"
    show "\<forall>(k, vals) \<in> set ?g. 2 \<le> length vals \<longrightarrow> list_all isfinite vals"
      using groups_entries [of _ _ e "metrics s"] all by auto
  qed
  then show ?thesis
    by (simp add: node_analyze_def analyze_groups_cases [OF ne] ret_def raise_def)
qed

lemma group_values_finite:
  assumes "\<forall>p \<in> set pts. \<forall>f. p_value p = Some f \<longrightarrow> isfinite f"
  shows "list_all isfinite (group_values k pts)"
  using assms
  by (induction pts) (auto simp: group_values_Cons split: option.splits)

lemma stats_lookup:
  "map_of (map (\<lambda>(k, vals). (k, group_stat vals)) (group_points e [] pts)) k
   = (if group_values k pts = [] then None else Some (group_stat (group_values k pts)))"
  by (simp add: map_of_map map_of_group_points)

text \<open>
  C4, as the code has it. The analyzer makes no call. When every group of two values or
  more is finite, it returns \<open>stats\<close> and \<open>anomalies\<close>: a kind whose group is empty has
  no entry in \<open>stats\<close>; a kind with one value has that value for its mean and zero for
  its deviation; a kind with \<open>n\<close> values, two or more, has the double nearest to their
  sum over \<open>n\<close> for its mean, and for its deviation the double nearest to the square
  root of the summed squared deviations over \<open>n\<close> (not over \<open>n - 1\<close>). When some group
  of two values or more holds an infinity or a not-a-number, the stage raises and there
  are no statistics at all.
\<close>

theorem analyzer_stats:
  "((\<forall>k. 2 \<le> length (group_values k (metrics s)) \<longrightarrow> list_all isfinite (group_values k (metrics s)))
      \<longrightarrow> (\<exists>sts fls. node_analyze e s = ([], Inr [Stats sts, Anomalies fls])
        \<and> (\<forall>k. let vals = group_values k (metrics s); xs = map real_of vals; n = length vals in
             (n = 0 \<longrightarrow> map_of sts k = None)
           \<and> (n = 1 \<longrightarrow> map_of sts k
                 = Some \<lparr>st_mean = Some (hd vals), st_stdev = Some (Fin 0), st_n = 1\<rparr>)
           \<and> (2 \<le> n \<longrightarrow> map_of sts k
                 = Some \<lparr>st_mean = Some (fl_round (sum_list xs / real n)),
                     st_stdev = Some (fl_round (sqrt
                       (sum_list (map (\<lambda>x. (x - sum_list xs / real n)\<^sup>2) xs) / real n))),
                     st_n = n\<rparr>))))
   \<and> ((\<exists>k. 2 \<le> length (group_values k (metrics s)) \<and> \<not> list_all isfinite (group_values k (metrics s)))
      \<longrightarrow> node_analyze e s = ([], Inl no_numerator))"
proof (intro conjI impI)
  assume "\<exists>k. 2 \<le> length (group_values k (metrics s)) \<and> \<not> list_all isfinite (group_values k (metrics s))"
  then show "node_analyze e s = ([], Inl no_numerator)"
    by (auto simp: node_analyze_cases)
next
  let ?sts = "map (\<lambda>(k, vals). (k, group_stat vals)) (group_points e [] (metrics s))"
  let ?fls = "concat (map (\<lambda>(k, vals). spec_flag k (st_mean (group_stat vals))
      (st_stdev (group_stat vals)) vals) (group_points e [] (metrics s)))"
  assume "\<forall>k. 2 \<le> length (group_values k (metrics s)) \<longrightarrow> list_all isfinite (group_values k (metrics s))"
  then have run: "node_analyze e s = ([], Inr [Stats ?sts, Anomalies ?fls])"
    by (simp add: node_analyze_cases)
  have each: "let vals = group_values k (metrics s); xs = map real_of vals; n = length vals in
             (n = 0 \<longrightarrow> map_of ?sts k = None)
           \<and> (n = 1 \<longrightarrow> map_of ?sts k
                 = Some \<lparr>st_mean = Some (hd vals), st_stdev = Some (Fin 0), st_n = 1\<rparr>)
           \<and> (2 \<le> n \<longrightarrow> map_of ?sts k
                 = Some \<lparr>st_mean = Some (fl_round (sum_list xs / real n)),
                     st_stdev = Some (fl_round (sqrt
                       (sum_list (map (\<lambda>x. (x - sum_list xs / real n)\<^sup>2) xs) / real n))),
                     st_n = n\<rparr>)" for k
    unfolding stats_lookup Let_def
    by (auto simp: group_stat_def Let_def)
  show "\<exists>sts fls. node_analyze e s = ([], Inr [Stats sts, Anomalies fls])
        \<and> (\<forall>k. let vals = group_values k (metrics s); xs = map real_of vals; n = length vals in
             (n = 0 \<longrightarrow> map_of sts k = None)
           \<and> (n = 1 \<longrightarrow> map_of sts k
                 = Some \<lparr>st_mean = Some (hd vals), st_stdev = Some (Fin 0), st_n = 1\<rparr>)
           \<and> (2 \<le> n \<longrightarrow> map_of sts k
                 = Some \<lparr>st_mean = Some (fl_round (sum_list xs / real n)),
                     st_stdev = Some (fl_round (sqrt
                       (sum_list (map (\<lambda>x. (x - sum_list xs / real n)\<^sup>2) xs) / real n))),
                     st_n = n\<rparr>))"
    using run each by blast
qed

text \<open>
  C5, as the code has it. Whenever the analyzer returns, the kinds in \<open>stats\<close> are
  distinct and are the kinds with a group, and \<open>anomalies\<close> is made of the flags of these
  kinds in the order of \<open>stats\<close>: a kind contributes a flag, with its count of outliers,
  exactly when the deviation that \<open>stats\<close> holds for it is above zero and one of its
  values lies below the lower or above the upper bound, the bounds being the doubles
  the code computes from the mean and the deviation in \<open>stats\<close> (\<open>spec_flag\<close>).
\<close>

theorem analyzer_flags:
  assumes run: "node_analyze e s = (cs, Inr u)"
  shows "cs = [] \<and> (\<exists>sts fls. u = [Stats sts, Anomalies fls]
     \<and> distinct (map fst sts) \<and> set (map fst sts) = {k. group_values k (metrics s) \<noteq> []}
     \<and> fls = concat (map (\<lambda>(k, st). spec_flag k (st_mean st) (st_stdev st)
                (group_values k (metrics s))) sts))"
proof -
  let ?g = "group_points e [] (metrics s)"
  let ?sts = "map (\<lambda>(k, vals). (k, group_stat vals)) ?g"
  let ?fls = "concat (map (\<lambda>(k, vals). spec_flag k (st_mean (group_stat vals))
      (st_stdev (group_stat vals)) vals) ?g)"
  from run have cs: "cs = []" and u: "u = [Stats ?sts, Anomalies ?fls]"
    by (auto simp: node_analyze_cases split: if_splits)
  have keys: "map fst ?sts = map fst ?g"
    by (simp add: comp_def case_prod_unfold)
  have dist: "distinct (map fst ?sts)"
    unfolding keys by (rule distinct_group_points) simp
  have dom: "set (map fst ?sts) = {k. group_values k (metrics s) \<noteq> []}"
    unfolding keys using groups_keys [of _ e "metrics s"] by auto
  have eq: "map (\<lambda>(k, vals). spec_flag k (st_mean (group_stat vals)) (st_stdev (group_stat vals)) vals) ?g
      = map (\<lambda>(k, st). spec_flag k (st_mean st) (st_stdev st) (group_values k (metrics s))) ?sts"
    unfolding map_map
  proof (rule map_cong [OF refl])
    fix x assume "x \<in> set ?g"
    then have "snd x = group_values (fst x) (metrics s)"
      using groups_entries [of "fst x" "snd x" e "metrics s"] by simp
    then show "(case x of (k, vals) \<Rightarrow> spec_flag k (st_mean (group_stat vals))
          (st_stdev (group_stat vals)) vals)
        = ((\<lambda>(k, st). spec_flag k (st_mean st) (st_stdev st) (group_values k (metrics s)))
            \<circ> (\<lambda>(k, vals). (k, group_stat vals))) x"
      by (simp add: case_prod_unfold)
  qed
  have fl: "?fls = concat (map (\<lambda>(k, st). spec_flag k (st_mean st) (st_stdev st)
                (group_values k (metrics s))) ?sts)"
    by (simp only: eq)
  from cs u dist dom fl show ?thesis by blast
qed

text \<open>
  Two consequences of the rule for one kind: without a deviation above zero there is no
  flag, whatever the values, and there is none when every value lies within the two
  computed bounds, the bounds included.
\<close>

lemma spec_flag_no_deviation:
  assumes "\<not> flt (Fin 0) d"
  shows "spec_flag k mu (Some d) vals = []"
  using assms by (simp add: spec_flag_def Let_def split: option.splits)

lemma spec_flag_within:
  assumes "\<forall>v \<in> set vals. \<not> flt v (fsub m (fmul (Fin 2.5) d)) \<and> \<not> flt (fadd m (fmul (Fin 2.5) d)) v"
  shows "spec_flag k (Some m) (Some d) vals = []"
  using assms by (auto simp: spec_flag_def Let_def)

lemma sqrt_25: "sqrt 25 = 5"
  by (rule real_sqrt_unique) simp_all

lemma sqrt_9: "sqrt 9 = 3"
  by (rule real_sqrt_unique) simp_all

lemma fl_15: "fl_round 15 = Fin 15"
  using fl_round_int [of 15] by simp

lemma fl_5: "fl_round 5 = Fin 5"
  using fl_round_int [of 5] by simp

lemma stats_state_finite:
  "\<forall>k. 2 \<le> length (group_values k (metrics stats_state))
      \<longrightarrow> list_all isfinite (group_values k (metrics stats_state))"
proof -
  have "\<forall>p \<in> set (metrics stats_state). \<forall>f. p_value p = Some f \<longrightarrow> isfinite f"
    by (auto simp: stats_state_def pt_def)
  then show ?thesis
    by (simp add: group_values_finite)
qed

lemma inf_group: "group_values (U ''hr'') (metrics inf_state) = [PosInf, Fin 1]"
  by (simp add: group_values_def inf_state_def pt_def U_def List.map_filter_simps)

theorem analyzer_stats_witness:
  "(\<exists>sts fls. node_analyze env0 stats_state = ([], Inr [Stats sts, Anomalies fls])
     \<and> map_of sts (U ''hr'') = Some \<lparr>st_mean = Some (Fin 15), st_stdev = Some (Fin 5), st_n = 2\<rparr>
     \<and> map_of sts (U ''steps'') = Some \<lparr>st_mean = Some (Fin 5), st_stdev = Some (Fin 0), st_n = 1\<rparr>
     \<and> map_of sts (U ''sleep'') = None)
   \<and> node_analyze env0 inf_state = ([], Inl no_numerator)"
proof
  from analyzer_stats [of stats_state env0] stats_state_finite obtain sts fls
    where run: "node_analyze env0 stats_state = ([], Inr [Stats sts, Anomalies fls])"
      and each: "\<And>k. let vals = group_values k (metrics stats_state); xs = map real_of vals;
               n = length vals in
             (n = 0 \<longrightarrow> map_of sts k = None)
           \<and> (n = 1 \<longrightarrow> map_of sts k
                 = Some \<lparr>st_mean = Some (hd vals), st_stdev = Some (Fin 0), st_n = 1\<rparr>)
           \<and> (2 \<le> n \<longrightarrow> map_of sts k
                 = Some \<lparr>st_mean = Some (fl_round (sum_list xs / real n)),
                     st_stdev = Some (fl_round (sqrt
                       (sum_list (map (\<lambda>x. (x - sum_list xs / real n)\<^sup>2) xs) / real n))),
                     st_n = n\<rparr>)"
    by blast
  have hr: "group_values (U ''hr'') (metrics stats_state) = [Fin 10, Fin 20]"
    by (simp add: group_values_def stats_state_def pt_def U_def List.map_filter_simps)
  have steps: "group_values (U ''steps'') (metrics stats_state) = [Fin 5]"
    by (simp add: group_values_def stats_state_def pt_def U_def List.map_filter_simps)
  have sleep: "group_values (U ''sleep'') (metrics stats_state) = []"
    by (simp add: group_values_def stats_state_def pt_def U_def List.map_filter_simps)
  from each [of "U ''hr''"]
  have "map_of sts (U ''hr'') = Some \<lparr>st_mean = Some (Fin 15), st_stdev = Some (Fin 5), st_n = 2\<rparr>"
    unfolding hr Let_def by (simp add: sqrt_25 fl_15 fl_5)
  moreover from each [of "U ''steps''"]
  have "map_of sts (U ''steps'') = Some \<lparr>st_mean = Some (Fin 5), st_stdev = Some (Fin 0), st_n = 1\<rparr>"
    unfolding steps Let_def by simp
  moreover from each [of "U ''sleep''"]
  have "map_of sts (U ''sleep'') = None"
    unfolding sleep Let_def by simp
  ultimately show "\<exists>sts fls. node_analyze env0 stats_state = ([], Inr [Stats sts, Anomalies fls])
     \<and> map_of sts (U ''hr'') = Some \<lparr>st_mean = Some (Fin 15), st_stdev = Some (Fin 5), st_n = 2\<rparr>
     \<and> map_of sts (U ''steps'') = Some \<lparr>st_mean = Some (Fin 5), st_stdev = Some (Fin 0), st_n = 1\<rparr>
     \<and> map_of sts (U ''sleep'') = None"
    using run by blast
next
  have "\<exists>k. 2 \<le> length (group_values k (metrics inf_state))
      \<and> \<not> list_all isfinite (group_values k (metrics inf_state))"
    by (rule exI [of _ "U ''hr''"]) (simp add: inf_group)
  with analyzer_stats [of inf_state env0] show "node_analyze env0 inf_state = ([], Inl no_numerator)"
    by blast
qed

text \<open>
  C4, as it is stated, fails: a group of two values whose first is an infinity has no
  mean and no deviation, because the stage ends with the exception of \<open>pstdev\<close>.
\<close>

theorem analyzer_raises_on_infinity:
  "group_values (U ''hr'') (metrics inf_state) = [PosInf, Fin 1]
   \<and> node_analyze env0 inf_state
       = ([], Inl (Exn ([39] @ U ''float'' @ [39] @ U '' object has no attribute ''
            @ [39] @ U ''numerator'' @ [39])))"
proof
  show "group_values (U ''hr'') (metrics inf_state) = [PosInf, Fin 1]"
    by (rule inf_group)
  show "node_analyze env0 inf_state
       = ([], Inl (Exn ([39] @ U ''float'' @ [39] @ U '' object has no attribute ''
            @ [39] @ U ''numerator'' @ [39])))"
    by (simp add: node_analyze_def inf_state_def fresh_state_def pt_def as_val_def
        safe_float_def mean_def pstdev_def no_numerator_def raise_def U_def)
qed

text \<open>The flag of a kind, once the product and the two bounds are known.\<close>

lemma spec_flag_bounds:
  assumes "fmul (Fin 2.5) d = p" and "fsub m p = lo" and "fadd m p = hi"
  shows "spec_flag k (Some m) (Some d) vals
    = (if flt (Fin 0) d \<and> (\<exists>v \<in> set vals. flt v lo \<or> flt hi v)
       then [flag_text k (length (filter (\<lambda>v. flt v lo \<or> flt hi v) vals))] else [])"
  using assms by (simp add: spec_flag_def Let_def)

lemma spread_stat:
  assumes "0 \<le> x"
  shows "group_stat (map Fin (spread x))
    = \<lparr>st_mean = Some (Fin 0), st_stdev = Some (fl_round (2 * x / 5)), st_n = 25\<rparr>"
proof -
  have len: "length (spread x) = 25"
    by (simp add: spread_def)
  have m: "sum_list (spread x) = 0"
    by (simp add: spread_def)
  have "sum_list (map (\<lambda>v. v\<^sup>2) (spread x)) / 25 = (2 * x / 5)\<^sup>2"
    by (simp add: spread_def power2_eq_square)
  then have sq: "sqrt (sum_list (map (\<lambda>v. v\<^sup>2) (spread x)) / 25) = 2 * x / 5"
    using assms by simp
  have comp: "real_of \<circ> Fin = id"
    by (auto simp: fun_eq_iff)
  show ?thesis
    unfolding group_stat_def Let_def by (simp add: comp len m sq)
qed

lemma spread_groups:
  "group_points env0 [] (map (pt ''hrv'') (spread x)) = [(U ''hrv'', map Fin (spread x))]"
  by (simp add: spread_def pt_def U_def as_val_def safe_float_def)

lemma spread_finite:
  "\<forall>k. 2 \<le> length (group_values k (metrics (spread_state x)))
      \<longrightarrow> list_all isfinite (group_values k (metrics (spread_state x)))"
proof -
  have "\<forall>p \<in> set (metrics (spread_state x)). \<forall>f. p_value p = Some f \<longrightarrow> isfinite f"
    by (auto simp: spread_state_def pt_def)
  then show ?thesis
    by (simp add: group_values_finite)
qed

lemma spread_run:
  assumes "0 \<le> x"
  shows "node_analyze env0 (spread_state x)
    = ([], Inr [Stats [(U ''hrv'', \<lparr>st_mean = Some (Fin 0), st_stdev = Some (fl_round (2 * x / 5)),
                          st_n = 25\<rparr>)],
                Anomalies (spec_flag (U ''hrv'') (Some (Fin 0)) (Some (fl_round (2 * x / 5)))
                   (map Fin (spread x)))])"
proof -
  have g: "group_points env0 [] (metrics (spread_state x)) = [(U ''hrv'', map Fin (spread x))]"
    by (simp add: spread_state_def spread_groups)
  show ?thesis
    unfolding node_analyze_cases g using spread_finite [of x]
    by (simp add: spread_stat [OF assms])
qed

text \<open>Roundings and bounds of the examples.\<close>

lemma fl_251: "fl_round (2 * 5629499534213128 / 5) = Fin 2251799813685251"
proof -
  have "fl_round (2 * 5629499534213128 / 5)
      = Fin (of_int (round_half_even (2 * 5629499534213128 / 5 / pow2 (51 - 52))) * pow2 (51 - 52))"
    by (rule fl_round_binade) (simp_all add: pow2_def)
  also have "round_half_even (2 * 5629499534213128 / 5 / pow2 (51 - 52)) = 4503599627370502"
    by (simp add: pow2_def round_half_even_def)
  finally show ?thesis by (simp add: pow2_def)
qed

lemma fl_249: "fl_round (2 * 5629499534213123 / 5) = Fin 2251799813685249"
proof -
  have "fl_round (2 * 5629499534213123 / 5)
      = Fin (of_int (round_half_even (2 * 5629499534213123 / 5 / pow2 (51 - 52))) * pow2 (51 - 52))"
    by (rule fl_round_binade) (simp_all add: pow2_def)
  also have "round_half_even (2 * 5629499534213123 / 5 / pow2 (51 - 52)) = 4503599627370498"
    by (simp add: pow2_def round_half_even_def)
  finally show ?thesis by (simp add: pow2_def)
qed

lemma prod_251: "fmul (Fin 2.5) (Fin 2251799813685251) = Fin 5629499534213128"
proof -
  have "fl_round (2.5 * 2251799813685251)
      = Fin (of_int (round_half_even (2.5 * 2251799813685251 / pow2 (52 - 52))) * pow2 (52 - 52))"
    by (rule fl_round_binade) (simp_all add: pow2_def)
  also have "round_half_even (2.5 * 2251799813685251 / pow2 (52 - 52)) = 5629499534213128"
    by (simp add: round_half_even_def)
  finally show ?thesis by simp
qed

lemma prod_249: "fmul (Fin 2.5) (Fin 2251799813685249) = Fin 5629499534213122"
proof -
  have "fl_round (2.5 * 2251799813685249)
      = Fin (of_int (round_half_even (2.5 * 2251799813685249 / pow2 (52 - 52))) * pow2 (52 - 52))"
    by (rule fl_round_binade) (simp_all add: pow2_def)
  also have "round_half_even (2.5 * 2251799813685249 / pow2 (52 - 52)) = 5629499534213122"
    by (simp add: round_half_even_def)
  finally show ?thesis by simp
qed

lemma zero_plus: "\<bar>m\<bar> < 2 ^ 53 \<Longrightarrow> fadd (Fin 0) (Fin (of_int m)) = Fin (of_int m)"
  by (simp add: fl_round_int)

lemma zero_minus: "\<bar>m\<bar> < 2 ^ 53 \<Longrightarrow> fsub (Fin 0) (Fin (of_int m)) = Fin (- of_int m)"
  using fl_round_int [of "- m"] by (simp add: fsub_def)

text \<open>
  C5, as it is stated, fails in both directions. For \<open>x = 5629499534213128\<close> the
  deviation in \<open>stats\<close> is 2251799813685251 and \<open>x\<close> lies strictly above the mean plus
  2.5 times that, yet there is no flag: the product is rounded up to \<open>x\<close>. For
  \<open>x = 5629499534213123\<close> the values \<open>x\<close> and \<open>- x\<close> lie exactly 2.5 deviations from the
  mean of the group, yet all four are flagged: the deviation is rounded down to
  2251799813685249 and the product to 5629499534213122.
\<close>

theorem analyzer_flags_rounding:
  "node_analyze env0 (spread_state 5629499534213128)
     = ([], Inr [Stats [(U ''hrv'', \<lparr>st_mean = Some (Fin 0),
                           st_stdev = Some (Fin 2251799813685251), st_n = 25\<rparr>)],
                 Anomalies []])
   \<and> (0 :: real) + 2.5 * 2251799813685251 < 5629499534213128
   \<and> node_analyze env0 (spread_state 5629499534213123)
     = ([], Inr [Stats [(U ''hrv'', \<lparr>st_mean = Some (Fin 0),
                           st_stdev = Some (Fin 2251799813685249), st_n = 25\<rparr>)],
                 Anomalies [U ''hrv: 4 outlier(s) beyond '' @ [177] @ U ''2.5'' @ [963]]])
   \<and> sum_list (spread 5629499534213123) / 25 = 0
   \<and> 2.5 * sqrt (sum_list (map (\<lambda>v. (v - 0)\<^sup>2) (spread 5629499534213123)) / 25)
       = 5629499534213123"
proof (intro conjI)
  have lo: "fsub (Fin 0) (Fin 5629499534213128) = Fin (- 5629499534213128)"
    using zero_minus [of 5629499534213128] by simp
  have hi: "fadd (Fin 0) (Fin 5629499534213128) = Fin 5629499534213128"
    using zero_plus [of 5629499534213128] by simp
  have none: "spec_flag (U ''hrv'') (Some (Fin 0)) (Some (Fin 2251799813685251))
      (map Fin (spread 5629499534213128)) = []"
    unfolding spec_flag_bounds [OF prod_251 lo hi] by (simp add: spread_def)
  have pos: "(0 :: real) \<le> 5629499534213128"
    by simp
  show "node_analyze env0 (spread_state 5629499534213128)
     = ([], Inr [Stats [(U ''hrv'', \<lparr>st_mean = Some (Fin 0),
                           st_stdev = Some (Fin 2251799813685251), st_n = 25\<rparr>)],
                 Anomalies []])"
    unfolding spread_run [OF pos] fl_251 none by (rule refl)
next
  show "(0 :: real) + 2.5 * 2251799813685251 < 5629499534213128"
    by simp
next
  have lo: "fsub (Fin 0) (Fin 5629499534213122) = Fin (- 5629499534213122)"
    using zero_minus [of 5629499534213122] by simp
  have hi: "fadd (Fin 0) (Fin 5629499534213122) = Fin 5629499534213122"
    using zero_plus [of 5629499534213122] by simp
  have four: "spec_flag (U ''hrv'') (Some (Fin 0)) (Some (Fin 2251799813685249))
      (map Fin (spread 5629499534213123)) = [flag_text (U ''hrv'') 4]"
    unfolding spec_flag_bounds [OF prod_249 lo hi] by (simp add: spread_def eval_nat_numeral)
  have pos: "(0 :: real) \<le> 5629499534213123"
    by simp
  show "node_analyze env0 (spread_state 5629499534213123)
     = ([], Inr [Stats [(U ''hrv'', \<lparr>st_mean = Some (Fin 0),
                           st_stdev = Some (Fin 2251799813685249), st_n = 25\<rparr>)],
                 Anomalies [U ''hrv: 4 outlier(s) beyond '' @ [177] @ U ''2.5'' @ [963]]])"
    unfolding spread_run [OF pos] fl_249 four by (simp add: flag_text_def U_def)
next
  show "sum_list (spread 5629499534213123) / 25 = 0"
    by (simp add: spread_def)
next
  have "sum_list (map (\<lambda>v. (v - 0)\<^sup>2) (spread 5629499534213123)) / 25
      = (2 * 5629499534213123 / 5)\<^sup>2"
    by (simp add: spread_def power2_eq_square)
  then have "sqrt (sum_list (map (\<lambda>v. (v - 0)\<^sup>2) (spread 5629499534213123)) / 25)
      = 2 * 5629499534213123 / 5"
    by simp
  then show "2.5 * sqrt (sum_list (map (\<lambda>v. (v - 0)\<^sup>2) (spread 5629499534213123)) / 25)
       = 5629499534213123"
    by simp
qed

lemma hr_stat:
  "group_stat (map Fin spike)
   = \<lparr>st_mean = Some (Fin 1), st_stdev = Some (Fin 3), st_n = 10\<rparr>"
proof -
  have comp: "real_of \<circ> Fin = id"
    by (auto simp: fun_eq_iff)
  have one: "fl_round 1 = Fin 1"
    using fl_round_int [of 1] by simp
  have three: "fl_round 3 = Fin 3"
    using fl_round_int [of 3] by simp
  show ?thesis
    unfolding group_stat_def Let_def by (simp add: spike_def comp one three sqrt_9)
qed

lemma hrv_stat:
  "group_stat (map Fin (spread 5))
   = \<lparr>st_mean = Some (Fin 0), st_stdev = Some (Fin 2), st_n = 25\<rparr>"
proof -
  have "fl_round (2 * 5 / 5) = Fin 2"
    using fl_round_int [of 2] by simp
  with spread_stat [of 5] show ?thesis
    by simp
qed

lemma outlier_groups:
  "group_points env0 [] (metrics outlier_state)
   = [(U ''hr'', map Fin spike), (U ''hrv'', map Fin (spread 5))]"
  by (simp add: outlier_state_def spike_def spread_def pt_def U_def as_val_def safe_float_def)

lemma outlier_stats:
  "\<exists>fls. node_analyze env0 outlier_state
     = ([], Inr [Stats [(U ''hr'', \<lparr>st_mean = Some (Fin 1), st_stdev = Some (Fin 3), st_n = 10\<rparr>),
                        (U ''hrv'', \<lparr>st_mean = Some (Fin 0), st_stdev = Some (Fin 2), st_n = 25\<rparr>)],
                 Anomalies fls])"
proof -
  have "\<forall>p \<in> set (metrics outlier_state). \<forall>f. p_value p = Some f \<longrightarrow> isfinite f"
    by (auto simp: outlier_state_def pt_def)
  then have "\<forall>k. 2 \<le> length (group_values k (metrics outlier_state))
      \<longrightarrow> list_all isfinite (group_values k (metrics outlier_state))"
    by (simp add: group_values_finite)
  then show ?thesis
    unfolding node_analyze_cases outlier_groups by (simp add: hr_stat hrv_stat)
qed

lemma hr_flag:
  "spec_flag (U ''hr'') (Some (Fin 1)) (Some (Fin 3)) (map Fin spike)
   = [flag_text (U ''hr'') 1]"
proof -
  have p: "fmul (Fin 2.5) (Fin 3) = Fin (15 / 2)"
    using fl_round_half [of 15] by simp
  have lo: "fsub (Fin 1) (Fin (15 / 2)) = Fin (- (13 / 2))"
    using fl_round_half [of "- 13"] by (simp add: fsub_def)
  have hi: "fadd (Fin 1) (Fin (15 / 2)) = Fin (17 / 2)"
    using fl_round_half [of 17] by simp
  show ?thesis
    unfolding spec_flag_bounds [OF p lo hi] by (simp add: spike_def)
qed

lemma hrv_flag:
  "spec_flag (U ''hrv'') (Some (Fin 0)) (Some (Fin 2)) (map Fin (spread 5)) = []"
proof -
  have p: "fmul (Fin 2.5) (Fin 2) = Fin 5"
    using fl_round_int [of 5] by simp
  have lo: "fsub (Fin 0) (Fin 5) = Fin (- 5)"
    using zero_minus [of 5] by simp
  have hi: "fadd (Fin 0) (Fin 5) = Fin 5"
    using zero_plus [of 5] by simp
  show ?thesis
    unfolding spec_flag_bounds [OF p lo hi] by (simp add: spread_def)
qed

lemma outlier_values:
  "group_values (U ''hr'') (metrics outlier_state) = map Fin spike"
  "group_values (U ''hrv'') (metrics outlier_state) = map Fin (spread 5)"
  by (simp_all add: group_values_def outlier_state_def spike_def spread_def pt_def U_def
      List.map_filter_simps)

theorem analyzer_flags_witness:
  "\<exists>sts fls. node_analyze env0 outlier_state = ([], Inr [Stats sts, Anomalies fls])
     \<and> map fst sts = [U ''hr'', U ''hrv'']
     \<and> fls = [U ''hr: 1 outlier(s) beyond '' @ [177] @ U ''2.5'' @ [963]]"
proof -
  from outlier_stats obtain fls0
    where run: "node_analyze env0 outlier_state
     = ([], Inr [Stats [(U ''hr'', \<lparr>st_mean = Some (Fin 1), st_stdev = Some (Fin 3), st_n = 10\<rparr>),
                        (U ''hrv'', \<lparr>st_mean = Some (Fin 0), st_stdev = Some (Fin 2), st_n = 25\<rparr>)],
                 Anomalies fls0])" ..
  from analyzer_flags [OF run] obtain sts fls
    where u: "[Stats [(U ''hr'', \<lparr>st_mean = Some (Fin 1), st_stdev = Some (Fin 3), st_n = 10\<rparr>),
                      (U ''hrv'', \<lparr>st_mean = Some (Fin 0), st_stdev = Some (Fin 2), st_n = 25\<rparr>)],
               Anomalies fls0] = [Stats sts, Anomalies fls]"
      and fl: "fls = concat (map (\<lambda>(k, st). spec_flag k (st_mean st) (st_stdev st)
                (group_values k (metrics outlier_state))) sts)"
    by blast
  from u have sts: "sts = [(U ''hr'', \<lparr>st_mean = Some (Fin 1), st_stdev = Some (Fin 3), st_n = 10\<rparr>),
                      (U ''hrv'', \<lparr>st_mean = Some (Fin 0), st_stdev = Some (Fin 2), st_n = 25\<rparr>)]"
    and same: "fls0 = fls"
    by simp_all
  have "fls = [flag_text (U ''hr'') 1]"
    unfolding fl sts by (simp add: outlier_values hr_flag hrv_flag)
  then have "fls = [U ''hr: 1 outlier(s) beyond '' @ [177] @ U ''2.5'' @ [963]]"
    by (simp add: flag_text_def U_def)
  with run sts same show ?thesis
    by simp
qed

subsection \<open>Runs of the graph\<close>

lemma run_stages_names:
  "run_stages stages s = (cs, ups, r) \<Longrightarrow>
     map fst ups = take (length ups) (map fst stages)
   \<and> (case r of Inl x \<Rightarrow> length ups < length stages | Inr s' \<Rightarrow> length ups = length stages)"
proof (induction stages arbitrary: s cs ups r)
  case Nil
  then show ?case by auto
next
  case (Cons st stages)
  obtain name node where st: "st = (name, node)" by (cases st)
  obtain c1 r1 where n: "node s = (c1, r1)" by (cases "node s")
  show ?case
  proof (cases r1)
    case (Inl x)
    with Cons.prems st n show ?thesis by auto
  next
    case (Inr u)
    obtain c2 ups2 r2 where rest: "run_stages stages (merge s u) = (c2, ups2, r2)"
      by (cases "run_stages stages (merge s u)")
    from Cons.IH [OF rest] Cons.prems st n Inr rest show ?thesis
      by (auto split: sum.splits)
  qed
qed

lemma run_stages_snoc:
  "run_stages (stages @ [(name, node)]) s =
     (case run_stages stages s of
        (cs, ups, Inl x) \<Rightarrow> (cs, ups, Inl x)
      | (cs, ups, Inr s1) \<Rightarrow>
          (case node s1 of
             (cs', Inl x) \<Rightarrow> (cs @ cs', ups, Inl x)
           | (cs', Inr u) \<Rightarrow> (cs @ cs', ups @ [(name, u)], Inr (merge s1 u))))"
proof (induction stages arbitrary: s)
  case Nil
  then show ?case by (auto split: prod.splits sum.splits)
next
  case (Cons st stages)
  obtain n0 f0 where st: "st = (n0, f0)" by (cases st)
  show ?case
    unfolding st by (auto simp: Cons split: prod.splits sum.splits)
qed

lemma sse_loop_events:
  "fst (sse_loop fa ups) = map (\<lambda>(name, u). NodeEvent name (map key_of u)) ups"
  by (induction fa ups rule: sse_loop.induct) (simp_all add: Let_def case_prod_unfold split: option.splits)

lemma sse_loop_snoc:
  "snd (sse_loop fa (ups @ [(name, u)])) =
     (case get_answer u of
        None \<Rightarrow> snd (sse_loop fa ups)
      | Some a \<Rightarrow> if a \<noteq> [] then a else snd (sse_loop fa ups))"
  by (induction fa ups rule: sse_loop.induct) (simp_all add: Let_def case_prod_unfold split: option.splits)

lemma node_answer_update:
  assumes "node_answer e s = (cs, Inr u)"
  shows "\<exists>c. c \<noteq> [] \<and> u = [Answer c, Messages [AIMessage c]]"
proof -
  have "disclaimer \<noteq> []"
    by (simp add: disclaimer_def U_def)
  with assms show ?thesis
    by (auto simp: node_answer_def call_def ret_def Let_def split: sum.splits prod.splits)
qed

lemma graph_success:
  assumes "run_stages (GRAPH e) s = (cs, ups, Inr s')"
  shows "\<exists>c. c \<noteq> [] \<and> answer s' = Some c \<and> snd (sse_loop [] ups) = c"
proof -
  define front where "front = [(U ''parse_user'', node_parse_user),
      (U ''pull_metrics'', node_pull_metrics e), (U ''analyze_metrics'', node_analyze e),
      (U ''retrieve_guidance'', node_retrieve e), (U ''safety'', node_safety e)]"
  have graph: "GRAPH e = front @ [(U ''answer'', node_answer e)]"
    by (simp add: GRAPH_def front_def)
  obtain c1 ups1 r1 where front: "run_stages front s = (c1, ups1, r1)"
    by (cases "run_stages front s")
  from assms have run: "run_stages (front @ [(U ''answer'', node_answer e)]) s = (cs, ups, Inr s')"
    by (simp only: graph)
  from run front obtain s1 where r1: "r1 = Inr s1"
    by (cases r1) (auto simp: run_stages_snoc)
  obtain c2 r2 where ans: "node_answer e s1 = (c2, r2)"
    by (cases "node_answer e s1")
  from run front r1 ans obtain u where r2: "r2 = Inr u"
    and ups: "ups = ups1 @ [(U ''answer'', u)]" and s': "s' = merge s1 u"
    by (cases r2) (auto simp: run_stages_snoc)
  from node_answer_update [of e s1 c2 u] ans r2 obtain c
    where c: "c \<noteq> []" and u: "u = [Answer c, Messages [AIMessage c]]"
    by auto
  have "answer s' = Some c"
    by (simp add: s' u)
  moreover have "snd (sse_loop [] ups) = c"
    using c by (simp add: ups sse_loop_snoc u)
  ultimately show ?thesis using c by blast
qed

lemma stage_names:
  "map fst (GRAPH e) = [U ''parse_user'', U ''pull_metrics'', U ''analyze_metrics'',
     U ''retrieve_guidance'', U ''safety'', U ''answer'']"
  by (simp add: GRAPH_def)

subsection \<open>The chat endpoints\<close>

lemma last_snoc2: "last (xs @ [a, b]) = b"
  by simp

text \<open>The stream of the generator, after a run that failed and after one that completed.\<close>

lemma sse_gen_failed:
  assumes "graph_astream e init = (ups, Some x)"
  shows "sse_gen e init db body
    = (map (\<lambda>(name, u). NodeEvent name (map key_of u)) ups @ [ErrorEvent (str_exn x), DONE], db)"
  using assms by (simp add: sse_gen_def case_prod_unfold sse_loop_events)

lemma sse_gen_completed:
  assumes "graph_astream e init = (ups, None)" and "snd (sse_loop [] ups) = a"
  shows "sse_gen e init db body
    = (case firestore_add_fault e db (r_user_id body)
              \<lparr>t_role = U ''user'', t_content = r_message body\<rparr> of
         Some x \<Rightarrow>
           (map (\<lambda>(name, u). NodeEvent name (map key_of u)) ups @ [ErrorEvent (str_exn x), DONE], db)
       | None \<Rightarrow>
           (case firestore_add_fault e
                   (db(r_user_id body := db (r_user_id body)
                      @ [\<lparr>t_role = U ''user'', t_content = r_message body\<rparr>]))
                   (r_user_id body) \<lparr>t_role = U ''assistant'', t_content = a\<rparr> of
              Some x \<Rightarrow>
                (map (\<lambda>(name, u). NodeEvent name (map key_of u)) ups @ [ErrorEvent (str_exn x), DONE],
                 db(r_user_id body := db (r_user_id body)
                      @ [\<lparr>t_role = U ''user'', t_content = r_message body\<rparr>]))
            | None \<Rightarrow>
                (map (\<lambda>(name, u). NodeEvent name (map key_of u)) ups @ [FinalEvent a, DONE],
                 db(r_user_id body := db (r_user_id body)
                      @ [\<lparr>t_role = U ''user'', t_content = r_message body\<rparr>,
                         \<lparr>t_role = U ''assistant'', t_content = a\<rparr>]))))"
  using assms
  by (simp add: sse_gen_def append_turn_def Let_def case_prod_unfold sse_loop_events
      split: option.splits)

text \<open>
  C8, as the code has it. When the read of the history fails, the exception reaches the
  caller and there is no stream. Otherwise let the run of the graph on the initial state
  yield the updates \<open>ups\<close> and then end, with an exception or without. The names of the
  updates are the first stage names, in stage order, and there is a stream, whose last
  event is the end marker. If the run ended with the exception \<open>x\<close>, fewer than six
  stages completed and the stream is one progress event for each of them, the error event
  with the message of \<open>x\<close>, and the end marker. If it ended without one, all six stages
  completed, the final state holds a non-empty answer \<open>a\<close>, and the stream is the six
  progress events, one more event and the end marker; that event is the final event
  with \<open>a\<close> when the write of the user's turn and then the write of the assistant's turn
  succeed, and the error event with the message of the first write that fails
  otherwise.
\<close>

theorem chat_stream_events:
  "(\<forall>x. fetch_context e cfg db (r_user_id body) (max_context_messages cfg) = Inl x
        \<longrightarrow> chat_stream e cfg db body = (Inl x, db))
   \<and> (\<forall>h ups outcome.
        fetch_context e cfg db (r_user_id body) (max_context_messages cfg) = Inr h
        \<and> graph_astream e (initial_state e cfg h body) = (ups, outcome) \<longrightarrow>
          map fst ups = take (length ups) [U ''parse_user'', U ''pull_metrics'',
              U ''analyze_metrics'', U ''retrieve_guidance'', U ''safety'', U ''answer'']
        \<and> (\<exists>evs. fst (chat_stream e cfg db body) = Inr evs \<and> last evs = DONE
            \<and> (\<forall>x. outcome = Some x \<longrightarrow> length ups < 6
                  \<and> evs = map (\<lambda>(name, u). NodeEvent name (map key_of u)) ups
                          @ [ErrorEvent (str_exn x), DONE])
            \<and> (outcome = None \<longrightarrow> length ups = 6
                  \<and> (\<exists>a s'. a \<noteq> [] \<and> graph_invoke e (initial_state e cfg h body) = Inr s'
                      \<and> answer s' = Some a
                      \<and> (let uid = r_user_id body;
                              t1 = \<lparr>t_role = U ''user'', t_content = r_message body\<rparr>;
                              t2 = \<lparr>t_role = U ''assistant'', t_content = a\<rparr>;
                              db1 = db(uid := db uid @ [t1]);
                              progress = map (\<lambda>(name, u). NodeEvent name (map key_of u)) ups
                          in (\<forall>x. firestore_add_fault e db uid t1 = Some x
                                \<longrightarrow> evs = progress @ [ErrorEvent (str_exn x), DONE])
                           \<and> (\<forall>x. firestore_add_fault e db uid t1 = None
                                  \<and> firestore_add_fault e db1 uid t2 = Some x
                                \<longrightarrow> evs = progress @ [ErrorEvent (str_exn x), DONE])
                           \<and> (firestore_add_fault e db uid t1 = None
                                  \<and> firestore_add_fault e db1 uid t2 = None
                                \<longrightarrow> evs = progress @ [FinalEvent a, DONE]))))))"
proof (intro conjI)
  show "\<forall>x. fetch_context e cfg db (r_user_id body) (max_context_messages cfg) = Inl x
        \<longrightarrow> chat_stream e cfg db body = (Inl x, db)"
    by (simp add: chat_stream_def)
next
  have main: "map fst ups = take (length ups) [U ''parse_user'', U ''pull_metrics'',
              U ''analyze_metrics'', U ''retrieve_guidance'', U ''safety'', U ''answer'']
        \<and> (\<exists>evs. fst (chat_stream e cfg db body) = Inr evs \<and> last evs = DONE
            \<and> (\<forall>x. outcome = Some x \<longrightarrow> length ups < 6
                  \<and> evs = map (\<lambda>(name, u). NodeEvent name (map key_of u)) ups
                          @ [ErrorEvent (str_exn x), DONE])
            \<and> (outcome = None \<longrightarrow> length ups = 6
                  \<and> (\<exists>a s'. a \<noteq> [] \<and> graph_invoke e (initial_state e cfg h body) = Inr s'
                      \<and> answer s' = Some a
                      \<and> (let uid = r_user_id body;
                              t1 = \<lparr>t_role = U ''user'', t_content = r_message body\<rparr>;
                              t2 = \<lparr>t_role = U ''assistant'', t_content = a\<rparr>;
                              db1 = db(uid := db uid @ [t1]);
                              progress = map (\<lambda>(name, u). NodeEvent name (map key_of u)) ups
                          in (\<forall>x. firestore_add_fault e db uid t1 = Some x
                                \<longrightarrow> evs = progress @ [ErrorEvent (str_exn x), DONE])
                           \<and> (\<forall>x. firestore_add_fault e db uid t1 = None
                                  \<and> firestore_add_fault e db1 uid t2 = Some x
                                \<longrightarrow> evs = progress @ [ErrorEvent (str_exn x), DONE])
                           \<and> (firestore_add_fault e db uid t1 = None
                                  \<and> firestore_add_fault e db1 uid t2 = None
                                \<longrightarrow> evs = progress @ [FinalEvent a, DONE])))))"
    if asm: "fetch_context e cfg db (r_user_id body) (max_context_messages cfg) = Inr h
        \<and> graph_astream e (initial_state e cfg h body) = (ups, outcome)"
    for h ups outcome
  proof -
    let ?init = "initial_state e cfg h body"
    let ?progress = "map (\<lambda>(name, u). NodeEvent name (map key_of u)) ups"
    from asm have hist: "fetch_context e cfg db (r_user_id body) (max_context_messages cfg) = Inr h"
      and run: "graph_astream e ?init = (ups, outcome)"
      by simp_all
    have stream: "fst (chat_stream e cfg db body) = Inr (fst (sse_gen e ?init db body))"
      by (simp add: chat_stream_def hist case_prod_unfold)
    obtain cs r where rs: "run_stages (GRAPH e) ?init = (cs, ups, r)"
      and out: "outcome = (case r of Inl x \<Rightarrow> Some x | Inr s' \<Rightarrow> None)"
      using run by (auto simp: graph_astream_def split: prod.splits sum.splits)
    have six: "length (GRAPH e) = 6"
      by (simp add: GRAPH_def)
    from run_stages_names [OF rs]
    have names: "map fst ups = take (length ups) [U ''parse_user'', U ''pull_metrics'',
          U ''analyze_metrics'', U ''retrieve_guidance'', U ''safety'', U ''answer'']"
      and len: "case r of Inl x \<Rightarrow> length ups < 6 | Inr s' \<Rightarrow> length ups = 6"
      by (simp_all add: stage_names six split: sum.splits)
    show ?thesis
    proof (cases r)
      case (Inl x)
      with out have o: "outcome = Some x" by simp
      from run o have "sse_gen e ?init db body = (?progress @ [ErrorEvent (str_exn x), DONE], db)"
        by (simp add: sse_gen_failed)
      then have ev: "fst (sse_gen e ?init db body) = ?progress @ [ErrorEvent (str_exn x), DONE]"
        by simp
      have closed: "last (fst (sse_gen e ?init db body)) = DONE"
        unfolding ev by (rule last_snoc2)
      from len Inl have "length ups < 6" by simp
      with names o ev closed stream show ?thesis
        by simp
    next
      case (Inr s')
      with out have o: "outcome = None" by simp
      from graph_success [of e ?init cs ups s'] rs Inr obtain a
        where a: "a \<noteq> []" "answer s' = Some a" "snd (sse_loop [] ups) = a"
        by auto
      have inv: "graph_invoke e ?init = Inr s'"
        using rs Inr by (simp add: graph_invoke_def)
      from run o have run': "graph_astream e ?init = (ups, None)" by simp
      note gen = sse_gen_completed [OF run' a(3), of db body]
      have closed: "last (fst (sse_gen e ?init db body)) = DONE"
        unfolding gen by (simp split: option.splits)
      have cases: "let uid = r_user_id body;
                       t1 = \<lparr>t_role = U ''user'', t_content = r_message body\<rparr>;
                       t2 = \<lparr>t_role = U ''assistant'', t_content = a\<rparr>;
                       db1 = db(uid := db uid @ [t1]);
                       progress = map (\<lambda>(name, u). NodeEvent name (map key_of u)) ups
                   in (\<forall>x. firestore_add_fault e db uid t1 = Some x
                         \<longrightarrow> fst (sse_gen e ?init db body) = progress @ [ErrorEvent (str_exn x), DONE])
                    \<and> (\<forall>x. firestore_add_fault e db uid t1 = None
                           \<and> firestore_add_fault e db1 uid t2 = Some x
                         \<longrightarrow> fst (sse_gen e ?init db body) = progress @ [ErrorEvent (str_exn x), DONE])
                    \<and> (firestore_add_fault e db uid t1 = None
                           \<and> firestore_add_fault e db1 uid t2 = None
                         \<longrightarrow> fst (sse_gen e ?init db body) = progress @ [FinalEvent a, DONE])"
        unfolding gen Let_def by simp
      from len Inr have six_done: "length ups = 6" by simp
      have ex: "\<exists>a s'. a \<noteq> [] \<and> graph_invoke e ?init = Inr s' \<and> answer s' = Some a
          \<and> (let uid = r_user_id body;
                  t1 = \<lparr>t_role = U ''user'', t_content = r_message body\<rparr>;
                  t2 = \<lparr>t_role = U ''assistant'', t_content = a\<rparr>;
                  db1 = db(uid := db uid @ [t1]);
                  progress = map (\<lambda>(name, u). NodeEvent name (map key_of u)) ups
              in (\<forall>x. firestore_add_fault e db uid t1 = Some x
                    \<longrightarrow> fst (sse_gen e ?init db body) = progress @ [ErrorEvent (str_exn x), DONE])
               \<and> (\<forall>x. firestore_add_fault e db uid t1 = None
                      \<and> firestore_add_fault e db1 uid t2 = Some x
                    \<longrightarrow> fst (sse_gen e ?init db body) = progress @ [ErrorEvent (str_exn x), DONE])
               \<and> (firestore_add_fault e db uid t1 = None
                      \<and> firestore_add_fault e db1 uid t2 = None
                    \<longrightarrow> fst (sse_gen e ?init db body) = progress @ [FinalEvent a, DONE]))"
        using a(1,2) inv cases by blast
      from names o six_done ex closed stream show ?thesis
        by simp
    qed
  qed
  show "\<forall>h ups outcome.
        fetch_context e cfg db (r_user_id body) (max_context_messages cfg) = Inr h
        \<and> graph_astream e (initial_state e cfg h body) = (ups, outcome) \<longrightarrow>
          map fst ups = take (length ups) [U ''parse_user'', U ''pull_metrics'',
              U ''analyze_metrics'', U ''retrieve_guidance'', U ''safety'', U ''answer'']
        \<and> (\<exists>evs. fst (chat_stream e cfg db body) = Inr evs \<and> last evs = DONE
            \<and> (\<forall>x. outcome = Some x \<longrightarrow> length ups < 6
                  \<and> evs = map (\<lambda>(name, u). NodeEvent name (map key_of u)) ups
                          @ [ErrorEvent (str_exn x), DONE])
            \<and> (outcome = None \<longrightarrow> length ups = 6
                  \<and> (\<exists>a s'. a \<noteq> [] \<and> graph_invoke e (initial_state e cfg h body) = Inr s'
                      \<and> answer s' = Some a
                      \<and> (let uid = r_user_id body;
                              t1 = \<lparr>t_role = U ''user'', t_content = r_message body\<rparr>;
                              t2 = \<lparr>t_role = U ''assistant'', t_content = a\<rparr>;
                              db1 = db(uid := db uid @ [t1]);
                              progress = map (\<lambda>(name, u). NodeEvent name (map key_of u)) ups
                          in (\<forall>x. firestore_add_fault e db uid t1 = Some x
                                \<longrightarrow> evs = progress @ [ErrorEvent (str_exn x), DONE])
                           \<and> (\<forall>x. firestore_add_fault e db uid t1 = None
                                  \<and> firestore_add_fault e db1 uid t2 = Some x
                                \<longrightarrow> evs = progress @ [ErrorEvent (str_exn x), DONE])
                           \<and> (firestore_add_fault e db uid t1 = None
                                  \<and> firestore_add_fault e db1 uid t2 = None
                                \<longrightarrow> evs = progress @ [FinalEvent a, DONE])))))"
    by (intro allI impI) (rule main, assumption)
qed

text \<open>
  C10. If the read of the history fails, both endpoints pass the exception on and leave
  the conversation collection as it was. Otherwise let \<open>r\<close> be the outcome of the run of
  the graph on the initial state. If a stage raised, \<open>chat\<close> passes the exception on,
  and both endpoints leave the collection as it was. A collection that changed means the
  run completed. After a run that completed, and with writes that succeed, each endpoint
  has appended the user's message and then the assistant's reply, and nothing else.
\<close>

theorem turns_after_run:
  "(\<forall>x. fetch_context e cfg db (r_user_id body) (max_context_messages cfg) = Inl x
        \<longrightarrow> chat e cfg db body = (Inl x, db) \<and> chat_stream e cfg db body = (Inl x, db))
   \<and> (\<forall>h r.
        fetch_context e cfg db (r_user_id body) (max_context_messages cfg) = Inr h
        \<and> graph_invoke e (initial_state e cfg h body) = r \<longrightarrow>
          (\<forall>x. r = Inl x \<longrightarrow> chat e cfg db body = (Inl x, db) \<and> snd (chat_stream e cfg db body) = db)
        \<and> (snd (chat e cfg db body) \<noteq> db \<longrightarrow> (\<exists>s'. r = Inr s'))
        \<and> (snd (chat_stream e cfg db body) \<noteq> db \<longrightarrow> (\<exists>s'. r = Inr s'))
        \<and> (\<forall>s'. r = Inr s' \<and> (\<forall>db' t. firestore_add_fault e db' (r_user_id body) t = None) \<longrightarrow>
              (\<exists>a. answer s' = Some a
                \<and> snd (chat e cfg db body) = db(r_user_id body := db (r_user_id body)
                      @ [\<lparr>t_role = U ''user'', t_content = r_message body\<rparr>,
                         \<lparr>t_role = U ''assistant'', t_content = strip a\<rparr>])
                \<and> snd (chat_stream e cfg db body) = db(r_user_id body := db (r_user_id body)
                      @ [\<lparr>t_role = U ''user'', t_content = r_message body\<rparr>,
                         \<lparr>t_role = U ''assistant'', t_content = a\<rparr>]))))"
proof (intro conjI)
  show "\<forall>x. fetch_context e cfg db (r_user_id body) (max_context_messages cfg) = Inl x
        \<longrightarrow> chat e cfg db body = (Inl x, db) \<and> chat_stream e cfg db body = (Inl x, db)"
    by (simp add: chat_def chat_stream_def)
next
  have main: "(\<forall>x. r = Inl x \<longrightarrow> chat e cfg db body = (Inl x, db) \<and> snd (chat_stream e cfg db body) = db)
        \<and> (snd (chat e cfg db body) \<noteq> db \<longrightarrow> (\<exists>s'. r = Inr s'))
        \<and> (snd (chat_stream e cfg db body) \<noteq> db \<longrightarrow> (\<exists>s'. r = Inr s'))
        \<and> (\<forall>s'. r = Inr s' \<and> (\<forall>db' t. firestore_add_fault e db' (r_user_id body) t = None) \<longrightarrow>
              (\<exists>a. answer s' = Some a
                \<and> snd (chat e cfg db body) = db(r_user_id body := db (r_user_id body)
                      @ [\<lparr>t_role = U ''user'', t_content = r_message body\<rparr>,
                         \<lparr>t_role = U ''assistant'', t_content = strip a\<rparr>])
                \<and> snd (chat_stream e cfg db body) = db(r_user_id body := db (r_user_id body)
                      @ [\<lparr>t_role = U ''user'', t_content = r_message body\<rparr>,
                         \<lparr>t_role = U ''assistant'', t_content = a\<rparr>])))"
    if asm: "fetch_context e cfg db (r_user_id body) (max_context_messages cfg) = Inr h
        \<and> graph_invoke e (initial_state e cfg h body) = r"
    for h r
  proof -
    let ?init = "initial_state e cfg h body"
    from asm have hist: "fetch_context e cfg db (r_user_id body) (max_context_messages cfg) = Inr h"
      and run: "graph_invoke e ?init = r"
      by simp_all
    obtain cs ups where rs: "run_stages (GRAPH e) ?init = (cs, ups, r)"
      using run by (cases "run_stages (GRAPH e) ?init") (auto simp: graph_invoke_def)
    have stream: "graph_astream e ?init = (ups, case r of Inl x \<Rightarrow> Some x | Inr s' \<Rightarrow> None)"
      using rs by (simp add: graph_astream_def split: sum.splits)
    have st: "snd (chat_stream e cfg db body) = snd (sse_gen e ?init db body)"
      by (simp add: chat_stream_def hist case_prod_unfold)
    have fail: "chat e cfg db body = (Inl x, db) \<and> snd (chat_stream e cfg db body) = db"
      if "r = Inl x" for x
      using that run stream by (simp add: chat_def hist st sse_gen_failed)
    have ok: "\<exists>a. answer s' = Some a
              \<and> snd (chat e cfg db body) = db(r_user_id body := db (r_user_id body)
                    @ [\<lparr>t_role = U ''user'', t_content = r_message body\<rparr>,
                       \<lparr>t_role = U ''assistant'', t_content = strip a\<rparr>])
              \<and> snd (chat_stream e cfg db body) = db(r_user_id body := db (r_user_id body)
                    @ [\<lparr>t_role = U ''user'', t_content = r_message body\<rparr>,
                       \<lparr>t_role = U ''assistant'', t_content = a\<rparr>])"
      if r: "r = Inr s'" and w: "\<forall>db' t. firestore_add_fault e db' (r_user_id body) t = None" for s'
    proof -
      from graph_success [of e ?init cs ups s'] rs r obtain a
        where a: "a \<noteq> []" "answer s' = Some a" "snd (sse_loop [] ups) = a"
        by auto
      have "snd (chat e cfg db body) = db(r_user_id body := db (r_user_id body)
                    @ [\<lparr>t_role = U ''user'', t_content = r_message body\<rparr>,
                       \<lparr>t_role = U ''assistant'', t_content = strip a\<rparr>])"
        using run r a w by (simp add: chat_def hist append_turn_def or_str_def Let_def)
      moreover from stream r have "graph_astream e ?init = (ups, None)"
        by simp
      then have "snd (chat_stream e cfg db body) = db(r_user_id body := db (r_user_id body)
                    @ [\<lparr>t_role = U ''user'', t_content = r_message body\<rparr>,
                       \<lparr>t_role = U ''assistant'', t_content = a\<rparr>])"
        using w by (simp add: st sse_gen_completed [OF _ a(3)])
      ultimately show ?thesis using a by blast
    qed
    from fail have "\<exists>s'. r = Inr s'" if "snd (chat e cfg db body) \<noteq> db"
      using that by (cases r) auto
    moreover from fail have "\<exists>s'. r = Inr s'" if "snd (chat_stream e cfg db body) \<noteq> db"
      using that by (cases r) auto
    ultimately show ?thesis
      using fail ok by blast
  qed
  show "\<forall>h r.
        fetch_context e cfg db (r_user_id body) (max_context_messages cfg) = Inr h
        \<and> graph_invoke e (initial_state e cfg h body) = r \<longrightarrow>
          (\<forall>x. r = Inl x \<longrightarrow> chat e cfg db body = (Inl x, db) \<and> snd (chat_stream e cfg db body) = db)
        \<and> (snd (chat e cfg db body) \<noteq> db \<longrightarrow> (\<exists>s'. r = Inr s'))
        \<and> (snd (chat_stream e cfg db body) \<noteq> db \<longrightarrow> (\<exists>s'. r = Inr s'))
        \<and> (\<forall>s'. r = Inr s' \<and> (\<forall>db' t. firestore_add_fault e db' (r_user_id body) t = None) \<longrightarrow>
              (\<exists>a. answer s' = Some a
                \<and> snd (chat e cfg db body) = db(r_user_id body := db (r_user_id body)
                      @ [\<lparr>t_role = U ''user'', t_content = r_message body\<rparr>,
                         \<lparr>t_role = U ''assistant'', t_content = strip a\<rparr>])
                \<and> snd (chat_stream e cfg db body) = db(r_user_id body := db (r_user_id body)
                      @ [\<lparr>t_role = U ''user'', t_content = r_message body\<rparr>,
                         \<lparr>t_role = U ''assistant'', t_content = a\<rparr>])))"
    by (intro allI impI) (rule main, assumption)
qed

lemmas eval_defs = graph_astream_def graph_invoke_def GRAPH_def initial_state_def cfg0_def db0_def
  req0_def env_down_def env_unwritable_def env_half_written_def env0_def to_lc_history_def
  node_parse_user_def ret_def raise_def call_def strip_def is_space_def U_def
  node_pull_metrics_def falsy_def or_str_def get_user_metrics_def parse_iso_utc_def
  kind_filter_def fromkeys_def List.map_filter_simps node_analyze_def
  node_retrieve_def enriched_query_def enrich_for_def Let_def

lemma history0:
  "fetch_context env0 cfg0 db0 (r_user_id req0) (max_context_messages cfg0) = Inr []"
  "fetch_context env_down cfg0 db0 (r_user_id req0) (max_context_messages cfg0) = Inr []"
  "fetch_context env_unwritable cfg0 db0 (r_user_id req0) (max_context_messages cfg0) = Inr []"
  "fetch_context env_half_written cfg0 db0 (r_user_id req0) (max_context_messages cfg0) = Inr []"
  by (simp_all add: fetch_context_def last_slice_def env0_def env_down_def env_unwritable_def
      env_half_written_def db0_def)

lemma no_history:
  "fetch_context env_unreadable cfg0 db0 (r_user_id req0) (max_context_messages cfg0)
   = Inl (Exn (U ''read failed''))"
  by (simp add: fetch_context_def env_unreadable_def)

lemma down_run:
  "graph_astream env_down (initial_state env_down cfg0 [] req0)
   = ([(U ''parse_user'', [Question (Some (U ''how is my sleep?'')),
          MetricKinds [U ''hr'', U ''hrv'', U ''steps'', U ''sleep''],
          Metrics [], Anomalies [], RelevantChunks [], Citations [], SafetyWarnings []]),
       (U ''pull_metrics'', [Metrics []]),
       (U ''analyze_metrics'', [Stats [], Anomalies []])],
      Some (Exn (U ''embedding service down'')))"
  by (simp add: eval_defs)

lemma ok_run:
  "\<exists>s'. graph_invoke env0 (initial_state env0 cfg0 [] req0) = Inr s'
     \<and> answer s' = Some (U ''ok'' @ [10, 10] @ disclaimer)"
  by (simp add: eval_defs node_safety_def node_answer_def)

lemma down_invoke:
  "graph_invoke env_down (initial_state env_down cfg0 [] req0)
   = Inl (Exn (U ''embedding service down''))"
  by (simp add: eval_defs)

lemma ok_stream: "\<exists>ups. graph_astream env0 (initial_state env0 cfg0 [] req0) = (ups, None)"
  by (simp add: eval_defs node_safety_def node_answer_def)

lemma env0_writes: "firestore_add_fault env0 db' uid t = None"
  by (simp add: env0_def)

lemma unwritable_stream:
  "\<exists>ups. graph_astream env_unwritable (initial_state env_unwritable cfg0 [] req0) = (ups, None)"
  by (simp add: eval_defs node_safety_def node_answer_def)

lemma half_written_stream:
  "\<exists>ups. graph_astream env_half_written (initial_state env_half_written cfg0 [] req0) = (ups, None)"
  by (simp add: eval_defs node_safety_def node_answer_def)

theorem chat_stream_events_witness:
  "fst (chat_stream env_down cfg0 db0 req0)
   = Inr [NodeEvent (U ''parse_user'') [U ''question'', U ''metric_kinds'', U ''metrics'',
            U ''anomalies'', U ''relevant_chunks'', U ''citations'', U ''safety_warnings''],
          NodeEvent (U ''pull_metrics'') [U ''metrics''],
          NodeEvent (U ''analyze_metrics'') [U ''stats'', U ''anomalies''],
          ErrorEvent (U ''embedding service down''), DONE]
   \<and> (\<exists>evs. length evs = 6
        \<and> fst (chat_stream env0 cfg0 db0 req0)
            = Inr (evs @ [FinalEvent (U ''ok'' @ [10, 10] @ disclaimer), DONE]))
   \<and> (\<exists>evs. length evs = 6
        \<and> fst (chat_stream env_unwritable cfg0 db0 req0)
            = Inr (evs @ [ErrorEvent (U ''write failed''), DONE]))
   \<and> (\<exists>evs. length evs = 6
        \<and> fst (chat_stream env_half_written cfg0 db0 req0)
            = Inr (evs @ [ErrorEvent (U ''second write failed''), DONE]))
   \<and> chat_stream env_unreadable cfg0 db0 req0 = (Inl (Exn (U ''read failed'')), db0)"
proof (intro conjI)
  from chat_stream_events [of env_down cfg0 db0 req0] history0(2) down_run
  obtain evs where "fst (chat_stream env_down cfg0 db0 req0) = Inr evs"
    and "evs = map (\<lambda>(name, u). NodeEvent name (map key_of u))
          [(U ''parse_user'', [Question (Some (U ''how is my sleep?'')),
             MetricKinds [U ''hr'', U ''hrv'', U ''steps'', U ''sleep''],
             Metrics [], Anomalies [], RelevantChunks [], Citations [], SafetyWarnings []]),
           (U ''pull_metrics'', [Metrics []]),
           (U ''analyze_metrics'', [Stats [], Anomalies []])]
        @ [ErrorEvent (str_exn (Exn (U ''embedding service down''))), DONE]"
    by blast
  then show "fst (chat_stream env_down cfg0 db0 req0)
   = Inr [NodeEvent (U ''parse_user'') [U ''question'', U ''metric_kinds'', U ''metrics'',
            U ''anomalies'', U ''relevant_chunks'', U ''citations'', U ''safety_warnings''],
          NodeEvent (U ''pull_metrics'') [U ''metrics''],
          NodeEvent (U ''analyze_metrics'') [U ''stats'', U ''anomalies''],
          ErrorEvent (U ''embedding service down''), DONE]"
    by simp
next
  from ok_stream obtain ups
    where run: "graph_astream env0 (initial_state env0 cfg0 [] req0) = (ups, None)" ..
  from chat_stream_events [of env0 cfg0 db0 req0] history0(1) run obtain evs a s'
    where ev: "fst (chat_stream env0 cfg0 db0 req0) = Inr evs"
      and six: "length ups = 6"
      and inv: "graph_invoke env0 (initial_state env0 cfg0 [] req0) = Inr s'"
      and a: "answer s' = Some a"
      and fin: "let uid = r_user_id req0;
                    t1 = \<lparr>t_role = U ''user'', t_content = r_message req0\<rparr>;
                    t2 = \<lparr>t_role = U ''assistant'', t_content = a\<rparr>;
                    db1 = db0(uid := db0 uid @ [t1]);
                    progress = map (\<lambda>(name, u). NodeEvent name (map key_of u)) ups
                in firestore_add_fault env0 db0 uid t1 = None
                     \<and> firestore_add_fault env0 db1 uid t2 = None
                   \<longrightarrow> evs = progress @ [FinalEvent a, DONE]"
    unfolding Let_def by blast
  from ok_run inv a have "a = U ''ok'' @ [10, 10] @ disclaimer"
    by auto
  with fin have "evs = map (\<lambda>(name, u). NodeEvent name (map key_of u)) ups
      @ [FinalEvent (U ''ok'' @ [10, 10] @ disclaimer), DONE]"
    by (simp add: Let_def env0_writes)
  with ev six show "\<exists>evs. length evs = 6
        \<and> fst (chat_stream env0 cfg0 db0 req0)
            = Inr (evs @ [FinalEvent (U ''ok'' @ [10, 10] @ disclaimer), DONE])"
    by (intro exI [of _ "map (\<lambda>(name, u). NodeEvent name (map key_of u)) ups"]) simp
next
  from unwritable_stream obtain ups
    where run: "graph_astream env_unwritable (initial_state env_unwritable cfg0 [] req0) = (ups, None)" ..
  from chat_stream_events [of env_unwritable cfg0 db0 req0] history0(3) run obtain evs a
    where ev: "fst (chat_stream env_unwritable cfg0 db0 req0) = Inr evs"
      and six: "length ups = 6"
      and err: "let uid = r_user_id req0;
                    t1 = \<lparr>t_role = U ''user'', t_content = r_message req0\<rparr>;
                    t2 = \<lparr>t_role = U ''assistant'', t_content = a\<rparr>;
                    db1 = db0(uid := db0 uid @ [t1]);
                    progress = map (\<lambda>(name, u). NodeEvent name (map key_of u)) ups
                in \<forall>x. firestore_add_fault env_unwritable db0 uid t1 = Some x
                     \<longrightarrow> evs = progress @ [ErrorEvent (str_exn x), DONE]"
    unfolding Let_def by blast
  from err have "evs = map (\<lambda>(name, u). NodeEvent name (map key_of u)) ups
      @ [ErrorEvent (U ''write failed''), DONE]"
    by (simp add: Let_def env_unwritable_def)
  with ev six show "\<exists>evs. length evs = 6
        \<and> fst (chat_stream env_unwritable cfg0 db0 req0)
            = Inr (evs @ [ErrorEvent (U ''write failed''), DONE])"
    by (intro exI [of _ "map (\<lambda>(name, u). NodeEvent name (map key_of u)) ups"]) simp
next
  from half_written_stream obtain ups
    where run: "graph_astream env_half_written (initial_state env_half_written cfg0 [] req0)
        = (ups, None)" ..
  from chat_stream_events [of env_half_written cfg0 db0 req0] history0(4) run obtain evs a
    where ev: "fst (chat_stream env_half_written cfg0 db0 req0) = Inr evs"
      and six: "length ups = 6"
      and err: "let uid = r_user_id req0;
                    t1 = \<lparr>t_role = U ''user'', t_content = r_message req0\<rparr>;
                    t2 = \<lparr>t_role = U ''assistant'', t_content = a\<rparr>;
                    db1 = db0(uid := db0 uid @ [t1]);
                    progress = map (\<lambda>(name, u). NodeEvent name (map key_of u)) ups
                in \<forall>x. firestore_add_fault env_half_written db0 uid t1 = None
                       \<and> firestore_add_fault env_half_written db1 uid t2 = Some x
                     \<longrightarrow> evs = progress @ [ErrorEvent (str_exn x), DONE]"
    unfolding Let_def by blast
  from err have "evs = map (\<lambda>(name, u). NodeEvent name (map key_of u)) ups
      @ [ErrorEvent (U ''second write failed''), DONE]"
    by (simp add: Let_def env_half_written_def U_def)
  with ev six show "\<exists>evs. length evs = 6
        \<and> fst (chat_stream env_half_written cfg0 db0 req0)
            = Inr (evs @ [ErrorEvent (U ''second write failed''), DONE])"
    by (intro exI [of _ "map (\<lambda>(name, u). NodeEvent name (map key_of u)) ups"]) simp
next
  from chat_stream_events [of env_unreadable cfg0 db0 req0] no_history
  show "chat_stream env_unreadable cfg0 db0 req0 = (Inl (Exn (U ''read failed'')), db0)"
    by blast
qed

text \<open>
  C8, as it is stated, fails: after a run that completed all six stages, with an answer,
  a conversation collection that cannot be written to makes the stream end with an
  error event in place of the event that carries the answer.
\<close>

theorem chat_stream_write_failure:
  "(\<exists>s'. graph_invoke env_unwritable (initial_state env_unwritable cfg0 [] req0) = Inr s'
       \<and> answer s' = Some (U ''ok'' @ [10, 10] @ disclaimer))
   \<and> chat_stream env_unwritable cfg0 db0 req0
     = (Inr [NodeEvent (U ''parse_user'') [U ''question'', U ''metric_kinds'', U ''metrics'',
               U ''anomalies'', U ''relevant_chunks'', U ''citations'', U ''safety_warnings''],
             NodeEvent (U ''pull_metrics'') [U ''metrics''],
             NodeEvent (U ''analyze_metrics'') [U ''stats'', U ''anomalies''],
             NodeEvent (U ''retrieve_guidance'') [U ''relevant_chunks'', U ''citations''],
             NodeEvent (U ''safety'') [U ''safety_warnings''],
             NodeEvent (U ''answer'') [U ''answer'', U ''messages''],
             ErrorEvent (U ''write failed''), DONE],
        db0)"
proof
  show "\<exists>s'. graph_invoke env_unwritable (initial_state env_unwritable cfg0 [] req0) = Inr s'
       \<and> answer s' = Some (U ''ok'' @ [10, 10] @ disclaimer)"
    by (simp add: eval_defs node_safety_def node_answer_def)
  show "chat_stream env_unwritable cfg0 db0 req0
     = (Inr [NodeEvent (U ''parse_user'') [U ''question'', U ''metric_kinds'', U ''metrics'',
               U ''anomalies'', U ''relevant_chunks'', U ''citations'', U ''safety_warnings''],
             NodeEvent (U ''pull_metrics'') [U ''metrics''],
             NodeEvent (U ''analyze_metrics'') [U ''stats'', U ''anomalies''],
             NodeEvent (U ''retrieve_guidance'') [U ''relevant_chunks'', U ''citations''],
             NodeEvent (U ''safety'') [U ''safety_warnings''],
             NodeEvent (U ''answer'') [U ''answer'', U ''messages''],
             ErrorEvent (U ''write failed''), DONE],
        db0)"
    by (simp add: chat_stream_def sse_gen_def fetch_context_def last_slice_def append_turn_def
        eval_defs node_safety_def node_answer_def)
qed

lemma strip_answer: "strip (U ''ok'' @ [10, 10] @ disclaimer) = U ''ok'' @ [10, 10] @ disclaimer"
  by (simp add: strip_def disclaimer_def U_def is_space_def)

theorem turns_after_run_witness:
  "chat env_down cfg0 db0 req0 = (Inl (Exn (U ''embedding service down'')), db0)
   \<and> snd (chat_stream env_down cfg0 db0 req0) = db0
   \<and> snd (chat env0 cfg0 db0 req0) (U ''u1'')
       = [\<lparr>t_role = U ''user'', t_content = U ''how is my sleep?''\<rparr>,
          \<lparr>t_role = U ''assistant'', t_content = U ''ok'' @ [10, 10] @ disclaimer\<rparr>]
   \<and> snd (chat_stream env0 cfg0 db0 req0) (U ''u1'')
       = [\<lparr>t_role = U ''user'', t_content = U ''how is my sleep?''\<rparr>,
          \<lparr>t_role = U ''assistant'', t_content = U ''ok'' @ [10, 10] @ disclaimer\<rparr>]
   \<and> chat env_unreadable cfg0 db0 req0 = (Inl (Exn (U ''read failed'')), db0)
   \<and> chat_stream env_unreadable cfg0 db0 req0 = (Inl (Exn (U ''read failed'')), db0)"
proof -
  from turns_after_run [of env_down cfg0 db0 req0] history0(2) down_invoke
  have down: "chat env_down cfg0 db0 req0 = (Inl (Exn (U ''embedding service down'')), db0)
      \<and> snd (chat_stream env_down cfg0 db0 req0) = db0"
    by blast
  from turns_after_run [of env_unreadable cfg0 db0 req0] no_history
  have unread: "chat env_unreadable cfg0 db0 req0 = (Inl (Exn (U ''read failed'')), db0)
      \<and> chat_stream env_unreadable cfg0 db0 req0 = (Inl (Exn (U ''read failed'')), db0)"
    by blast
  from ok_run obtain s' where inv: "graph_invoke env0 (initial_state env0 cfg0 [] req0) = Inr s'"
    and ans: "answer s' = Some (U ''ok'' @ [10, 10] @ disclaimer)"
    by blast
  have writes: "\<forall>db' t. firestore_add_fault env0 db' (r_user_id req0) t = None"
    by (simp add: env0_writes)
  from turns_after_run [of env0 cfg0 db0 req0] history0(1) inv writes obtain a
    where a: "answer s' = Some a"
    and c: "snd (chat env0 cfg0 db0 req0) = db0(r_user_id req0 := db0 (r_user_id req0)
                  @ [\<lparr>t_role = U ''user'', t_content = r_message req0\<rparr>,
                     \<lparr>t_role = U ''assistant'', t_content = strip a\<rparr>])"
    and st: "snd (chat_stream env0 cfg0 db0 req0) = db0(r_user_id req0 := db0 (r_user_id req0)
                  @ [\<lparr>t_role = U ''user'', t_content = r_message req0\<rparr>,
                     \<lparr>t_role = U ''assistant'', t_content = a\<rparr>])"
    by blast
  from a ans have a': "a = U ''ok'' @ [10, 10] @ disclaimer" by simp
  have "snd (chat env0 cfg0 db0 req0) (U ''u1'')
       = [\<lparr>t_role = U ''user'', t_content = U ''how is my sleep?''\<rparr>,
          \<lparr>t_role = U ''assistant'', t_content = U ''ok'' @ [10, 10] @ disclaimer\<rparr>]"
    unfolding c a' strip_answer by (simp add: req0_def db0_def)
  moreover have "snd (chat_stream env0 cfg0 db0 req0) (U ''u1'')
       = [\<lparr>t_role = U ''user'', t_content = U ''how is my sleep?''\<rparr>,
          \<lparr>t_role = U ''assistant'', t_content = U ''ok'' @ [10, 10] @ disclaimer\<rparr>]"
    unfolding st a' by (simp add: req0_def db0_def)
  ultimately show ?thesis
    using down unread by blast
qed

end
